theory Spec2Isabelle
  imports Main "HOL-Library.AList"
begin

section \<open>Python strings\<close>

text \<open>
  A Python \<open>str\<close> is a sequence of Unicode code points. The three string operations the
  server uses (\<open>str.strip\<close>, \<open>str.upper\<close> and the \<open>\b\<close> of module \<open>re\<close>) look every
  character up in the interpreter's Unicode tables. On the ASCII range these tables are
  written out below; beyond it they are a parameter of the model, so that every theorem
  holds whatever the tables say about the other code points.
\<close>

type_synonym codepoint = nat
type_synonym pystr = "codepoint list"

definition str :: "string \<Rightarrow> pystr" where
  "str s = map of_char s"

record unicode =
  uc_isspace :: "codepoint \<Rightarrow> bool"
  uc_isalnum :: "codepoint \<Rightarrow> bool"
  uc_upper :: "codepoint \<Rightarrow> pystr"

text \<open>A table that knows no character beyond ASCII, to evaluate ASCII inputs with.\<close>

definition ascii_unicode :: unicode where
  "ascii_unicode = \<lparr>uc_isspace = (\<lambda>c. False), uc_isalnum = (\<lambda>c. False), uc_upper = (\<lambda>c. [c])\<rparr>"

text \<open>\<open>c.isspace()\<close>: tab to carriage return, the four separators FS to US, and space.\<close>

definition py_isspace :: "unicode \<Rightarrow> codepoint \<Rightarrow> bool" where
  "py_isspace u c =
     (if c < 128 then (9 \<le> c \<and> c \<le> 13) \<or> (28 \<le> c \<and> c \<le> 32) else uc_isspace u c)"

text \<open>The class \<open>\w\<close> of a \<open>str\<close> pattern: alphanumeric, or the underscore.\<close>

definition py_isword :: "unicode \<Rightarrow> codepoint \<Rightarrow> bool" where
  "py_isword u c =
     (if c < 128
      then (48 \<le> c \<and> c \<le> 57) \<or> (65 \<le> c \<and> c \<le> 90) \<or> (97 \<le> c \<and> c \<le> 122) \<or> c = 95
      else uc_isalnum u c)"

text \<open>\<open>s.upper()\<close> maps each character on its own; beyond ASCII one character may become several.\<close>

definition upper_char :: "unicode \<Rightarrow> codepoint \<Rightarrow> pystr" where
  "upper_char u c =
     (if c < 128 then (if 97 \<le> c \<and> c \<le> 122 then [c - 32] else [c]) else uc_upper u c)"

definition py_upper :: "unicode \<Rightarrow> pystr \<Rightarrow> pystr" where
  "py_upper u s = concat (map (upper_char u) s)"

text \<open>\<open>s.strip()\<close> removes the whitespace at both ends.\<close>

definition py_strip :: "unicode \<Rightarrow> pystr \<Rightarrow> pystr" where
  "py_strip u s = rev (dropWhile (py_isspace u) (rev (dropWhile (py_isspace u) s)))"

definition startswith :: "pystr \<Rightarrow> pystr \<Rightarrow> bool" where
  "startswith s p = (take (length p) s = p)"

subsection \<open>Searching a keyword between word boundaries\<close>

text \<open>
  \<open>\b\<close> matches at position \<open>i\<close> of a non-empty text when exactly one of the characters
  before and after the position is a word character; the ends of the text count as
  non-word characters. It never matches in the empty text.
\<close>

definition at_boundary :: "unicode \<Rightarrow> pystr \<Rightarrow> nat \<Rightarrow> bool" where
  "at_boundary u s i =
     (s \<noteq> [] \<and>
      ((0 < i \<and> py_isword u (s ! (i - 1))) \<noteq> (i < length s \<and> py_isword u (s ! i))))"

text \<open>The pattern \<open>r'\b' + keyword + r'\b'\<close>, for a keyword of letters, matched at position \<open>i\<close>.\<close>

definition match_at :: "unicode \<Rightarrow> pystr \<Rightarrow> pystr \<Rightarrow> nat \<Rightarrow> bool" where
  "match_at u keyword s i =
     (at_boundary u s i \<and> take (length keyword) (drop i s) = keyword \<and>
      at_boundary u s (i + length keyword))"

text \<open>\<open>re.search\<close> tries every position of the text, the end included.\<close>

definition re_search_word :: "unicode \<Rightarrow> pystr \<Rightarrow> pystr \<Rightarrow> bool" where
  "re_search_word u keyword s = list_ex (match_at u keyword s) [0 ..< Suc (length s)]"

section \<open>Validating a query\<close>

text \<open>
  The checks at the head of \<open>AWSResourceQuerier.execute_athena_query\<close>: the result is the
  text of the \<open>error\<close> entry of the dictionary the method returns, or \<open>None\<close> when the
  method goes on to the engine.
\<close>

definition disallowed_keywords :: "string list" where
  "disallowed_keywords =
     [''INSERT'', ''UPDATE'', ''DELETE'', ''DROP'', ''ALTER'', ''CREATE'',
      ''TRUNCATE'', ''MERGE'', ''GRANT'', ''REVOKE'', ''VACUUM'']"

definition allowed_prefix :: "pystr \<Rightarrow> bool" where
  "allowed_prefix normalized_query =
     (startswith normalized_query (str ''SELECT '') \<or>
      startswith normalized_query (str ''WITH '') \<or>
      startswith normalized_query (str ''SHOW '') \<or>
      startswith normalized_query (str ''DESCRIBE '') \<or>
      normalized_query = str ''SHOW DATABASES'' \<or>
      startswith normalized_query (str ''EXPLAIN ''))"

definition prefix_error :: pystr where
  "prefix_error =
     str ''Security restriction: Only SELECT, SHOW, DESCRIBE, and EXPLAIN queries are allowed''"

definition keyword_error :: "string \<Rightarrow> pystr" where
  "keyword_error keyword =
     str ''Security restriction: Query contains disallowed keyword: '' @ str keyword"

text \<open>The loop over the keywords returns at the first one found.\<close>

fun check_keywords :: "unicode \<Rightarrow> pystr \<Rightarrow> string list \<Rightarrow> pystr option" where
  "check_keywords u normalized_query [] = None"
| "check_keywords u normalized_query (keyword # keywords) =
     (if re_search_word u (str keyword) normalized_query
      then Some (keyword_error keyword)
      else check_keywords u normalized_query keywords)"

definition normalize_query :: "unicode \<Rightarrow> pystr \<Rightarrow> pystr" where
  "normalize_query u query_string = py_upper u (py_strip u query_string)"

definition validate_query :: "unicode \<Rightarrow> pystr \<Rightarrow> pystr option" where
  "validate_query u query_string =
     (let normalized_query = normalize_query u query_string in
      if \<not> allowed_prefix normalized_query then Some prefix_error
      else check_keywords u normalized_query disallowed_keywords)"

section \<open>The Athena client\<close>

text \<open>
  What the server reads of the engine's answers. A key read with \<open>d[key]\<close> may be missing,
  and then the read raises \<open>KeyError\<close>; a key read with \<open>d.get(key, default)\<close> or tested
  with \<open>key in d\<close> may be missing as well. Both are optional fields here.
\<close>

datatype py_exception = KeyError string | IndexError | ClientError pystr

text \<open>\<open>str(e)\<close>, the text that ends up in the \<open>error\<close> entry.\<close>

fun exception_str :: "py_exception \<Rightarrow> pystr" where
  "exception_str (KeyError k) = str [CHR 0x27] @ str k @ str [CHR 0x27]"
| "exception_str IndexError = str ''list index out of range''"
| "exception_str (ClientError message) = message"

type_synonym statistics = "(pystr \<times> int) list"

record start_response =
  QueryExecutionId :: "pystr option"

record execution_status =
  State :: "pystr option"
  StateChangeReason :: "pystr option"

record result_configuration =
  OutputLocation :: "pystr option"

record query_execution =
  Status :: "execution_status option"
  Statistics :: "statistics option"
  ResultConfiguration :: "result_configuration option"

record execution_response =
  QueryExecution :: "query_execution option"

record raw_column =
  Name :: "pystr option"
  Type :: "pystr option"

record datum =
  VarCharValue :: "pystr option"

record raw_row =
  Data :: "datum list option"

record result_set_metadata =
  ColumnInfo :: "raw_column list option"

record result_set =
  ResultSetMetadata :: "result_set_metadata option"
  Rows :: "raw_row list option"

record results_response =
  ResultSet :: "result_set option"

text \<open>
  The client is an object with a state of its own (the engine behind it): each operation
  takes the state and returns the state it leaves, with the response or the exception
  raised. \<open>get_query_results\<close> takes \<open>MaxResults\<close> when the caller passes it.
\<close>

record 's athena_client =
  start_query_execution :: "pystr \<Rightarrow> pystr \<Rightarrow> pystr \<Rightarrow> 's \<Rightarrow> (py_exception + start_response) \<times> 's"
  get_query_execution :: "pystr \<Rightarrow> 's \<Rightarrow> (py_exception + execution_response) \<times> 's"
  get_query_results :: "pystr \<Rightarrow> int option \<Rightarrow> 's \<Rightarrow> (py_exception + results_response) \<times> 's"

text \<open>
  The querier: the two defaults read at start-up, and what \<open>self.session.client('athena')\<close>
  gives, a client or an exception.
\<close>

record 's querier =
  athena_workgroup :: pystr
  athena_output_location :: pystr
  session_client :: "py_exception + 's athena_client"

subsection \<open>The dictionaries returned\<close>

record column =
  column_name :: pystr
  column_type :: pystr

datatype pyvalue =
    VStr pystr
  | VInt int
  | VStatistics statistics
  | VResponse results_response
  | VColumns "column list"
  | VRows "(pystr \<times> pystr) list list"

text \<open>A dictionary keeps its keys in the order they were first set: an association list.\<close>

type_synonym pydict = "(string \<times> pyvalue) list"

definition error_dict :: "py_exception \<Rightarrow> pydict" where
  "error_dict e = [(''error'', VStr (exception_str e))]"

text \<open>\<open>x or fallback\<close> on an optional string: \<open>None\<close> and the empty string are both false.\<close>

definition py_or :: "pystr option \<Rightarrow> pystr \<Rightarrow> pystr" where
  "py_or x fallback = (case x of None \<Rightarrow> fallback | Some v \<Rightarrow> if v = [] then fallback else v)"

text \<open>\<open>status_response['QueryExecution']['Status']['State']\<close>\<close>

definition response_state :: "execution_response \<Rightarrow> py_exception + pystr" where
  "response_state status_response =
     (case QueryExecution status_response of
        None \<Rightarrow> Inl (KeyError ''QueryExecution'')
      | Some query_execution \<Rightarrow>
          (case Status query_execution of
             None \<Rightarrow> Inl (KeyError ''Status'')
           | Some status \<Rightarrow>
               (case State status of
                  None \<Rightarrow> Inl (KeyError ''State'')
                | Some state \<Rightarrow> Inr state)))"

section \<open>Submitting a query\<close>

definition max_retries :: nat where
  "max_retries = 100"

definition in_progress :: "pystr \<Rightarrow> bool" where
  "in_progress status = (status \<in> set [str ''QUEUED'', str ''RUNNING''])"

text \<open>
  The loop that waits for completion, from its test onwards. The \<open>time.sleep(1)\<close> between
  two checks only lets time pass and has no counterpart here.
\<close>

function poll_status ::
  "'s athena_client \<Rightarrow> pystr \<Rightarrow> pystr \<Rightarrow> nat \<Rightarrow> 's \<Rightarrow> (py_exception + pystr) \<times> 's" where
  "poll_status athena_client query_execution_id status retry_count s =
     (if in_progress status \<and> retry_count < max_retries then
        (case get_query_execution athena_client query_execution_id s of
           (Inl e, s') \<Rightarrow> (Inl e, s')
         | (Inr status_response, s') \<Rightarrow>
             (case response_state status_response of
                Inl e \<Rightarrow> (Inl e, s')
              | Inr status' \<Rightarrow>
                  poll_status athena_client query_execution_id status' (retry_count + 1) s'))
      else (Inr status, s))"
  by pat_completeness auto
termination
  by (relation "measure (\<lambda>(athena_client, query_execution_id, status, retry_count, s).
        max_retries - retry_count)") auto

declare poll_status.simps [simp del]

definition execute_athena_query ::
  "unicode \<Rightarrow> 's querier \<Rightarrow> pystr \<Rightarrow> pystr option \<Rightarrow> pystr option \<Rightarrow> bool \<Rightarrow> 's \<Rightarrow> pydict \<times> 's" where
  "execute_athena_query u self query_string workgroup output_location wait_for_completion s =
     (let workgroup = py_or workgroup (athena_workgroup self);
          output_location = py_or output_location (athena_output_location self)
      in case validate_query u query_string of
           Some message \<Rightarrow> ([(''error'', VStr message)], s)
         | None \<Rightarrow>
      (case session_client self of
           Inl e \<Rightarrow> (error_dict e, s)
         | Inr athena_client \<Rightarrow>
      (case start_query_execution athena_client query_string workgroup output_location s of
           (Inl e, s1) \<Rightarrow> (error_dict e, s1)
         | (Inr response, s1) \<Rightarrow>
      (case QueryExecutionId response of
           None \<Rightarrow> (error_dict (KeyError ''QueryExecutionId''), s1)
         | Some query_execution_id \<Rightarrow>
      (let result = [(''QueryExecutionId'', VStr query_execution_id),
                     (''OutputLocation'', VStr (output_location @ query_execution_id @ str ''.csv''))]
       in if wait_for_completion then
            (case poll_status athena_client query_execution_id (str ''RUNNING'') 0 s1 of
               (Inl e, s2) \<Rightarrow> (error_dict e, s2)
             | (Inr status, s2) \<Rightarrow>
            (let result = AList.update ''Status'' (VStr status) result
             in if status = str ''SUCCEEDED'' then
                  (case get_query_results athena_client query_execution_id None s2 of
                     (Inl e, s3) \<Rightarrow> (error_dict e, s3)
                   | (Inr results_response, s3) \<Rightarrow>
                       (AList.update ''Results'' (VResponse results_response) result, s3))
                else (result, s2)))
          else (result, s1))))))"

section \<open>Fetching the results of a query\<close>

text \<open>
  The dictionary with the status and the metadata, as \<open>get_athena_query_results\<close> builds it
  from the answer of \<open>get_query_execution\<close>, up to the entry \<open>ErrorMessage\<close> of a failed
  query; returned with the status.
\<close>

definition status_result :: "pystr \<Rightarrow> execution_response \<Rightarrow> py_exception + (pystr \<times> pydict)" where
  "status_result query_execution_id status_response =
     (case QueryExecution status_response of
        None \<Rightarrow> Inl (KeyError ''QueryExecution'')
      | Some query_execution \<Rightarrow>
     (case Status query_execution of
        None \<Rightarrow> Inl (KeyError ''Status'')
      | Some execution_status \<Rightarrow>
     (case State execution_status of
        None \<Rightarrow> Inl (KeyError ''State'')
      | Some status \<Rightarrow>
     (case ResultConfiguration query_execution of
        None \<Rightarrow> Inl (KeyError ''ResultConfiguration'')
      | Some result_configuration \<Rightarrow>
     (let result =
            [(''QueryExecutionId'', VStr query_execution_id),
             (''Status'', VStr status),
             (''StatisticsDetails'',
                VStatistics (case Statistics query_execution of None \<Rightarrow> [] | Some d \<Rightarrow> d)),
             (''OutputLocation'',
                VStr (case OutputLocation result_configuration of None \<Rightarrow> [] | Some l \<Rightarrow> l))]
      in Inr (status,
           if status = str ''FAILED'' then
             (case StateChangeReason execution_status of
                None \<Rightarrow> result
              | Some reason \<Rightarrow> AList.update ''ErrorMessage'' (VStr reason) result)
           else result))))))"

text \<open>The list \<open>column_info\<close>: name and type of every column, the empty string for a missing one.\<close>

definition process_column_info :: "results_response \<Rightarrow> column list" where
  "process_column_info results_response =
     (case ResultSet results_response of
        None \<Rightarrow> []
      | Some result_set \<Rightarrow>
          (case ResultSetMetadata result_set of
             None \<Rightarrow> []
           | Some metadata \<Rightarrow>
               map (\<lambda>col. \<lparr>column_name = (case Name col of None \<Rightarrow> [] | Some n \<Rightarrow> n),
                           column_type = (case Type col of None \<Rightarrow> [] | Some t \<Rightarrow> t)\<rparr>)
                   (case ColumnInfo metadata of None \<Rightarrow> [] | Some cols \<Rightarrow> cols)))"

text \<open>\<open>xs[i]\<close> on a list, for an index that is not negative.\<close>

definition list_getitem :: "'a list \<Rightarrow> nat \<Rightarrow> py_exception + 'a" where
  "list_getitem xs i = (if i < length xs then Inr (xs ! i) else Inl IndexError)"

text \<open>
  The inner loop, over \<open>enumerate(column_info)\<close>: the dictionary \<open>data\<close> of one row.
  \<open>row['Data']\<close> is read in every round, and only there.
\<close>

fun fill_data ::
  "raw_row \<Rightarrow> (nat \<times> column) list \<Rightarrow> (pystr \<times> pystr) list \<Rightarrow> py_exception + (pystr \<times> pystr) list" where
  "fill_data row [] data = Inr data"
| "fill_data row ((i, col_info) # rest) data =
     (case Data row of
        None \<Rightarrow> Inl (KeyError ''Data'')
      | Some cells \<Rightarrow>
          if i < length cells then
            (case list_getitem cells i of
               Inl e \<Rightarrow> Inl e
             | Inr cell \<Rightarrow>
                 fill_data row rest
                   (AList.update (column_name col_info)
                      (case VarCharValue cell of None \<Rightarrow> [] | Some v \<Rightarrow> v) data))
          else fill_data row rest data)"

text \<open>The outer loop, over the rows, with its flag \<open>header_processed\<close>.\<close>

fun process_rows ::
  "column list \<Rightarrow> raw_row list \<Rightarrow> bool \<Rightarrow> (pystr \<times> pystr) list list \<Rightarrow>
   py_exception + (pystr \<times> pystr) list list" where
  "process_rows column_info [] header_processed rows = Inr rows"
| "process_rows column_info (row # rest) header_processed rows =
     (if \<not> header_processed then process_rows column_info rest True rows
      else
        (case fill_data row (List.enumerate 0 column_info) [] of
           Inl e \<Rightarrow> Inl e
         | Inr data \<Rightarrow> process_rows column_info rest header_processed (rows @ [data])))"

definition process_result_rows ::
  "column list \<Rightarrow> results_response \<Rightarrow> py_exception + (pystr \<times> pystr) list list" where
  "process_result_rows column_info results_response =
     (case ResultSet results_response of
        None \<Rightarrow> Inr []
      | Some result_set \<Rightarrow>
          (case Rows result_set of
             None \<Rightarrow> Inr []
           | Some raw_rows \<Rightarrow> process_rows column_info raw_rows False []))"

definition get_athena_query_results :: "'s querier \<Rightarrow> pystr \<Rightarrow> int \<Rightarrow> 's \<Rightarrow> pydict \<times> 's" where
  "get_athena_query_results self query_execution_id max_results s =
     (case session_client self of
        Inl e \<Rightarrow> (error_dict e, s)
      | Inr athena_client \<Rightarrow>
     (case get_query_execution athena_client query_execution_id s of
        (Inl e, s1) \<Rightarrow> (error_dict e, s1)
      | (Inr status_response, s1) \<Rightarrow>
     (case status_result query_execution_id status_response of
        Inl e \<Rightarrow> (error_dict e, s1)
      | Inr (status, result) \<Rightarrow>
          if status = str ''SUCCEEDED'' then
            (case get_query_results athena_client query_execution_id (Some max_results) s1 of
               (Inl e, s2) \<Rightarrow> (error_dict e, s2)
             | (Inr results_response, s2) \<Rightarrow>
                 (let column_info = process_column_info results_response
                  in case process_result_rows column_info results_response of
                       Inl e \<Rightarrow> (error_dict e, s2)
                     | Inr rows \<Rightarrow>
                         (AList.update ''RowCount'' (VInt (int (length rows)))
                            (AList.update ''Rows'' (VRows rows)
                               (AList.update ''ColumnInfo'' (VColumns column_info) result)),
                          s2)))
          else (result, s1))))"

section \<open>A client that records its calls\<close>

text \<open>
  To speak of the calls a method makes, the client is wrapped so that it keeps, next to
  its own state, the list of the calls made so far, each with its arguments and with the
  answer it gave.
\<close>

datatype event =
    Start_query_execution pystr pystr pystr "py_exception + start_response"
  | Get_query_execution pystr "py_exception + execution_response"
  | Get_query_results pystr "int option" "py_exception + results_response"

definition recording :: "'s athena_client \<Rightarrow> ('s \<times> event list) athena_client" where
  "recording c =
     \<lparr>start_query_execution = (\<lambda>query_string workgroup output_location (s, log).
        case start_query_execution c query_string workgroup output_location s of
          (r, s') \<Rightarrow> (r, (s', log @ [Start_query_execution query_string workgroup output_location r]))),
      get_query_execution = (\<lambda>query_execution_id (s, log).
        case get_query_execution c query_execution_id s of
          (r, s') \<Rightarrow> (r, (s', log @ [Get_query_execution query_execution_id r]))),
      get_query_results = (\<lambda>query_execution_id max_results (s, log).
        case get_query_results c query_execution_id max_results s of
          (r, s') \<Rightarrow> (r, (s', log @ [Get_query_results query_execution_id max_results r])))\<rparr>"

definition recorded :: "'s querier \<Rightarrow> ('s \<times> event list) querier" where
  "recorded self =
     \<lparr>athena_workgroup = athena_workgroup self,
      athena_output_location = athena_output_location self,
      session_client = (case session_client self of Inl e \<Rightarrow> Inl e | Inr c \<Rightarrow> Inr (recording c))\<rparr>"

text \<open>The statuses seen by the calls of \<open>get_query_execution\<close> in a log, in order.\<close>

fun status_checks :: "event list \<Rightarrow> (py_exception + pystr) list" where
  "status_checks [] = []"
| "status_checks (Get_query_execution query_execution_id (Inl e) # log) = Inl e # status_checks log"
| "status_checks (Get_query_execution query_execution_id (Inr r) # log) =
     response_state r # status_checks log"
| "status_checks (ev # log) = status_checks log"

section \<open>Notions used to state the properties\<close>

text \<open>The dictionary a submission that waited returns when nothing went wrong.\<close>

definition base_result :: "pystr \<Rightarrow> pystr \<Rightarrow> pystr \<Rightarrow> pydict" where
  "base_result query_execution_id output_location status =
     [(''QueryExecutionId'', VStr query_execution_id),
      (''OutputLocation'', VStr (output_location @ query_execution_id @ str ''.csv'')),
      (''Status'', VStr status)]"

text \<open>Lowering the ASCII capitals of a text, to compare texts up to letter case.\<close>

definition ascii_lower :: "codepoint \<Rightarrow> codepoint" where
  "ascii_lower c = (if 65 \<le> c \<and> c \<le> 90 then c + 32 else c)"

text \<open>
  The row the specification describes: the names of the columns zipped with the texts of
  the cells, as \<open>dict(zip(names, texts))\<close> builds it. The zip stops at the shorter of the
  two lists, and a name that comes twice keeps its place and takes the later text.
\<close>

definition cell_text :: "datum \<Rightarrow> pystr" where
  "cell_text cell = (case VarCharValue cell of None \<Rightarrow> [] | Some v \<Rightarrow> v)"

definition zip_row :: "column list \<Rightarrow> datum list \<Rightarrow> (pystr \<times> pystr) list" where
  "zip_row column_info cells =
     fold (\<lambda>(col_info, cell). AList.update (column_name col_info) (cell_text cell))
       (zip column_info cells) []"

text \<open>The cells of a row, none when the row has no \<open>Data\<close>.\<close>

definition row_cells :: "raw_row \<Rightarrow> datum list" where
  "row_cells row = (case Data row of None \<Rightarrow> [] | Some cells \<Rightarrow> cells)"

subsection \<open>A scripted client and sample answers\<close>

text \<open>
  A client for examples: it hands out the execution id \<open>q-1\<close>, answers the status
  checks from a script (its state), one entry per call, and answers every request for
  results with the same response or exception.
\<close>

definition scripted_client ::
  "py_exception + results_response \<Rightarrow> (py_exception + execution_response) list athena_client" where
  "scripted_client results =
     \<lparr>start_query_execution = (\<lambda>query_string workgroup output_location s.
        (Inr \<lparr>QueryExecutionId = Some (str ''q-1'')\<rparr>, s)),
      get_query_execution = (\<lambda>query_execution_id s.
        case s of
          [] \<Rightarrow> (Inl (ClientError (str ''script exhausted'')), [])
        | answer # script \<Rightarrow> (answer, script)),
      get_query_results = (\<lambda>query_execution_id max_results s. (results, s))\<rparr>"

definition scripted_querier ::
  "py_exception + results_response \<Rightarrow> (py_exception + execution_response) list querier" where
  "scripted_querier results =
     \<lparr>athena_workgroup = str ''primary'',
      athena_output_location = str ''s3://results/'',
      session_client = Inr (scripted_client results)\<rparr>"

definition execution_in :: "string \<Rightarrow> pystr option \<Rightarrow> execution_response" where
  "execution_in state reason =
     \<lparr>QueryExecution = Some
        \<lparr>Status = Some \<lparr>State = Some (str state), StateChangeReason = reason\<rparr>,
         Statistics = None,
         ResultConfiguration = Some \<lparr>OutputLocation = Some (str ''s3://results/q-1.csv'')\<rparr>\<rparr>\<rparr>"

text \<open>
  Two columns and three rows: the header, a row whose second cell is a null, and a row
  with one cell only.
\<close>

definition sample_columns :: "raw_column list" where
  "sample_columns =
     [\<lparr>Name = Some (str ''id''), Type = Some (str ''integer'')\<rparr>,
      \<lparr>Name = Some (str ''name''), Type = Some (str ''varchar'')\<rparr>]"

definition sample_rows :: "raw_row list" where
  "sample_rows =
     [\<lparr>Data = Some [\<lparr>VarCharValue = Some (str ''id'')\<rparr>, \<lparr>VarCharValue = Some (str ''name'')\<rparr>]\<rparr>,
      \<lparr>Data = Some [\<lparr>VarCharValue = Some (str ''1'')\<rparr>, \<lparr>VarCharValue = None\<rparr>]\<rparr>,
      \<lparr>Data = Some [\<lparr>VarCharValue = Some (str ''2'')\<rparr>]\<rparr>]"

definition sample_results :: results_response where
  "sample_results =
     \<lparr>ResultSet = Some
        \<lparr>ResultSetMetadata = Some \<lparr>ColumnInfo = Some sample_columns\<rparr>,
         Rows = Some sample_rows\<rparr>\<rparr>"

text \<open>
  Three submissions of \<open>SELECT 1\<close> that wait, on a recording client: the engine reports
  \<open>RUNNING\<close> and then \<open>SUCCEEDED\<close>; it reports \<open>FAILED\<close> with a reason; it reports
  \<open>RUNNING\<close> a hundred times.
\<close>

definition sample_submit ::
  "(py_exception + execution_response) list \<Rightarrow>
   pydict \<times> (py_exception + execution_response) list \<times> event list" where
  "sample_submit script =
     execute_athena_query ascii_unicode (recorded (scripted_querier (Inr sample_results)))
       (str ''SELECT 1'') None None True (script, [])"

definition succeeded_run :: "pydict \<times> (py_exception + execution_response) list \<times> event list" where
  "succeeded_run =
     sample_submit [Inr (execution_in ''RUNNING'' None), Inr (execution_in ''SUCCEEDED'' None)]"

definition failed_run :: "pydict \<times> (py_exception + execution_response) list \<times> event list" where
  "failed_run = sample_submit [Inr (execution_in ''FAILED'' (Some (str ''SYNTAX_ERROR'')))]"

definition exhausted_run :: "pydict \<times> (py_exception + execution_response) list \<times> event list" where
  "exhausted_run = sample_submit (replicate 100 (Inr (execution_in ''RUNNING'' None)))"

text \<open>Fetching the results of the execution \<open>q-1\<close> from the scripted client, recording.\<close>

definition sample_fetch ::
  "py_exception + results_response \<Rightarrow> (py_exception + execution_response) list \<Rightarrow>
   pydict \<times> (py_exception + execution_response) list \<times> event list" where
  "sample_fetch results script =
     get_athena_query_results (recorded (scripted_querier results)) (str ''q-1'') 1000 (script, [])"

text \<open>
  Two columns of the same name, as a join of two tables gives them, and a row whose
  first cell is a null.
\<close>

definition twin_columns :: "column list" where
  "twin_columns =
     [\<lparr>column_name = str ''id'', column_type = str ''integer''\<rparr>,
      \<lparr>column_name = str ''id'', column_type = str ''integer''\<rparr>]"

definition twin_row :: raw_row where
  "twin_row = \<lparr>Data = Some [\<lparr>VarCharValue = None\<rparr>, \<lparr>VarCharValue = Some (str ''7'')\<rparr>]\<rparr>"

section \<open>Properties of the validation\<close>

lemma str_eq_iff: "str a = str b \<longleftrightarrow> a = b"
  by (simp add: str_def inj_map_eq_map inj_of_char)

lemma str_Nil_iff: "str a = [] \<longleftrightarrow> a = []" "[] = str a \<longleftrightarrow> a = []"
  by (auto simp: str_def)

lemma py_strip_spaces:
  assumes "\<forall>c\<in>set s. py_isspace u c"
  shows "py_strip u s = []"
proof -
  from assms have d: "dropWhile (py_isspace u) s = []" by (induction s) auto
  show ?thesis unfolding py_strip_def d by simp
qed

lemma py_upper_Nil: "py_upper u [] = []"
  by (simp add: py_upper_def)

lemma not_allowed_prefix_Nil: "\<not> allowed_prefix []"
  by (simp add: allowed_prefix_def startswith_def str_Nil_iff)

lemma check_keywords_find:
  "check_keywords u n ks = map_option keyword_error (find (\<lambda>k. re_search_word u (str k) n) ks)"
  by (induction ks) simp_all

lemma prefix_error_not_empty_query: "prefix_error \<noteq> str ''empty query''"
  by (simp add: prefix_error_def str_eq_iff)

lemma dropWhile_append_all: "\<forall>x\<in>set ws. P x \<Longrightarrow> dropWhile P (ws @ s) = dropWhile P s"
  by (induction ws) auto

lemma py_strip_pad:
  assumes "\<forall>c\<in>set ws1. py_isspace u c" "\<forall>c\<in>set ws2. py_isspace u c"
  shows "py_strip u (ws1 @ s @ ws2) = py_strip u s"
proof -
  have a: "dropWhile (py_isspace u) (ws1 @ s @ ws2) = dropWhile (py_isspace u) (s @ ws2)"
    using assms(1) by (rule dropWhile_append_all)
  show ?thesis
  proof (cases "\<forall>c\<in>set s. py_isspace u c")
    case True
    then have "\<forall>c\<in>set (ws1 @ s @ ws2). py_isspace u c" using assms by auto
    then have "py_strip u (ws1 @ s @ ws2) = []" by (rule py_strip_spaces)
    moreover have "py_strip u s = []" using True by (rule py_strip_spaces)
    ultimately show ?thesis by simp
  next
    case False
    then obtain x where "x \<in> set s" "\<not> py_isspace u x" by blast
    then have b: "dropWhile (py_isspace u) (s @ ws2) = dropWhile (py_isspace u) s @ ws2"
      by (rule dropWhile_append1)
    have "rev (dropWhile (py_isspace u) s @ ws2) = rev ws2 @ rev (dropWhile (py_isspace u) s)"
      by simp
    moreover have "\<forall>c\<in>set (rev ws2). py_isspace u c" using assms(2) by simp
    ultimately have "dropWhile (py_isspace u) (rev (dropWhile (py_isspace u) s @ ws2))
        = dropWhile (py_isspace u) (rev (dropWhile (py_isspace u) s))"
      by (simp add: dropWhile_append_all del: rev_append)
    then show ?thesis by (simp only: py_strip_def a b)
  qed
qed

lemma isspace_ascii_lower: "py_isspace u (ascii_lower c) = py_isspace u c"
  by (auto simp: py_isspace_def ascii_lower_def)

lemma upper_char_ascii_lower: "upper_char u (ascii_lower c) = upper_char u c"
  by (auto simp: upper_char_def ascii_lower_def)

lemma normalize_query_ascii_lower: "normalize_query u (map ascii_lower s) = normalize_query u s"
proof -
  have c: "py_isspace u \<circ> ascii_lower = py_isspace u"
    by (rule ext) (simp add: isspace_ascii_lower)
  have "py_strip u (map ascii_lower s) = map ascii_lower (py_strip u s)"
    by (simp add: py_strip_def dropWhile_map rev_map c)
  then show ?thesis
    by (simp add: normalize_query_def py_upper_def upper_char_ascii_lower comp_def)
qed

lemma validate_query_find:
  "validate_query u s =
     (if allowed_prefix (normalize_query u s)
      then map_option keyword_error
             (find (\<lambda>k. re_search_word u (str k) (normalize_query u s)) disallowed_keywords)
      else Some prefix_error)"
  by (simp add: validate_query_def check_keywords_find)

text \<open>
  What the search finds: the keyword stands in the text with no word character next to
  it on either side.
\<close>

lemma nth_middle_hd: "kw \<noteq> [] \<Longrightarrow> (pre @ kw @ post) ! length pre = hd kw"
  by (simp add: nth_append hd_conv_nth)

lemma nth_before: "pre \<noteq> [] \<Longrightarrow> (pre @ rest) ! (length pre - 1) = last pre"
  by (simp add: nth_append last_conv_nth)

lemma nth_middle_last: "kw \<noteq> [] \<Longrightarrow> (pre @ kw @ post) ! (length pre + length kw - 1) = last kw"
proof -
  assume k: "kw \<noteq> []"
  then have "length pre + length kw - 1 = length pre + (length kw - 1)" by (cases kw) simp_all
  with k show ?thesis by (simp add: nth_append last_conv_nth)
qed

lemma nth_after: "post \<noteq> [] \<Longrightarrow> (pre @ kw @ post) ! (length pre + length kw) = hd post"
  by (simp add: nth_append hd_conv_nth)

lemma boundary_before:
  assumes "kw \<noteq> []" "py_isword u (hd kw)"
  shows "at_boundary u (pre @ kw @ post) (length pre) \<longleftrightarrow> pre = [] \<or> \<not> py_isword u (last pre)"
proof (cases "pre = []")
  case True
  with assms show ?thesis using nth_middle_hd [of kw "[]" post] by (simp add: at_boundary_def)
next
  case False
  with assms show ?thesis
    using nth_middle_hd [of kw pre post] nth_before [of pre "kw @ post"]
    by (simp add: at_boundary_def)
qed

lemma boundary_after:
  assumes "kw \<noteq> []" "py_isword u (last kw)"
  shows "at_boundary u (pre @ kw @ post) (length pre + length kw) \<longleftrightarrow>
           post = [] \<or> \<not> py_isword u (hd post)"
proof (cases "post = []")
  case True
  with assms show ?thesis using nth_middle_last [of kw pre "[]"] by (simp add: at_boundary_def)
next
  case False
  with assms show ?thesis
    using nth_middle_last [of kw pre post] nth_after [of post pre kw]
    by (simp add: at_boundary_def)
qed

lemma match_at_decomposed:
  assumes "kw \<noteq> []" "py_isword u (hd kw)" "py_isword u (last kw)"
  shows "match_at u kw (pre @ kw @ post) (length pre) \<longleftrightarrow>
           (pre = [] \<or> \<not> py_isword u (last pre)) \<and> (post = [] \<or> \<not> py_isword u (hd post))"
  by (simp add: match_at_def boundary_before [OF assms(1,2)] boundary_after [OF assms(1,3)])

lemma re_search_word_iff:
  assumes "kw \<noteq> []" "py_isword u (hd kw)" "py_isword u (last kw)"
  shows "re_search_word u kw s \<longleftrightarrow>
           (\<exists>pre post. s = pre @ kw @ post \<and>
              (pre = [] \<or> \<not> py_isword u (last pre)) \<and> (post = [] \<or> \<not> py_isword u (hd post)))"
proof
  assume "re_search_word u kw s"
  then have "\<exists>i\<in>set [0 ..< Suc (length s)]. match_at u kw s i"
    by (simp only: re_search_word_def list_ex_iff)
  then obtain i where "i \<in> set [0 ..< Suc (length s)]" and m: "match_at u kw s i" by blast
  then have "i \<le> length s" by auto
  with m have i: "i \<le> length s" "match_at u kw s i" by simp_all
  then have t: "take (length kw) (drop i s) = kw" by (simp add: match_at_def)
  define pre where "pre = take i s"
  define post where "post = drop (length kw) (drop i s)"
  have "drop i s = kw @ post"
    unfolding post_def by (metis t append_take_drop_id)
  then have s: "s = pre @ kw @ post"
    unfolding pre_def by (metis append_take_drop_id)
  have l: "length pre = i" using i(1) by (simp add: pre_def)
  from i(2) have "match_at u kw (pre @ kw @ post) (length pre)" by (simp add: s [symmetric] l)
  with match_at_decomposed [OF assms] s
  show "\<exists>pre post. s = pre @ kw @ post \<and>
              (pre = [] \<or> \<not> py_isword u (last pre)) \<and> (post = [] \<or> \<not> py_isword u (hd post))"
    by blast
next
  assume "\<exists>pre post. s = pre @ kw @ post \<and>
              (pre = [] \<or> \<not> py_isword u (last pre)) \<and> (post = [] \<or> \<not> py_isword u (hd post))"
  then obtain pre post where s: "s = pre @ kw @ post"
    and b: "(pre = [] \<or> \<not> py_isword u (last pre)) \<and> (post = [] \<or> \<not> py_isword u (hd post))"
    by blast
  from b have "match_at u kw s (length pre)"
    unfolding s by (simp only: match_at_decomposed [OF assms])
  moreover have "length pre \<in> set [0 ..< Suc (length s)]" by (simp add: s)
  ultimately show "re_search_word u kw s"
    unfolding re_search_word_def list_ex_iff by blast
qed

lemma disallowed_keywords_words:
  "\<forall>k\<in>set disallowed_keywords. str k \<noteq> [] \<and> py_isword u (hd (str k)) \<and> py_isword u (last (str k))"
  by (simp add: disallowed_keywords_def str_def py_isword_def)

lemma keyword_search_iff:
  assumes "k \<in> set disallowed_keywords"
  shows "re_search_word u (str k) s \<longleftrightarrow>
           (\<exists>pre post. s = pre @ str k @ post \<and>
              (pre = [] \<or> \<not> py_isword u (last pre)) \<and> (post = [] \<or> \<not> py_isword u (hd post)))"
  using disallowed_keywords_words assms by (intro re_search_word_iff) blast+

text \<open>
  C6, as the code has it. A text that is empty or has whitespace only is rejected, and the
  reason is the one of the prefix test: the code has no test for an empty query, the
  stripped text is empty and so starts with none of the prefixes.
\<close>

theorem whitespace_only_query_rejected:
  "(\<forall>c\<in>set query_string. py_isspace u c) \<Longrightarrow>
     validate_query u query_string = Some prefix_error"
  by (simp add: validate_query_def normalize_query_def py_strip_spaces py_upper_Nil
        not_allowed_prefix_Nil)

theorem whitespace_only_query_rejected_witness:
  "list_all (py_isspace ascii_unicode) (str ''   '' @ [10, 9]) \<and>
   validate_query ascii_unicode (str ''   '' @ [10, 9]) = Some prefix_error"
proof -
  have h: "\<forall>c\<in>set (str ''   '' @ [10, 9]). py_isspace ascii_unicode c"
    by (simp add: str_def py_isspace_def)
  from h whitespace_only_query_rejected [OF h] show ?thesis by (simp add: list_all_iff)
qed

text \<open>C6, as the specification has it, fails: the reason given for the empty text is not \<open>empty query\<close>.\<close>

theorem empty_query_reason_counterexample:
  "validate_query ascii_unicode [] = Some prefix_error \<and>
   validate_query ascii_unicode [] \<noteq> Some (str ''empty query'')"
  by (simp add: validate_query_def normalize_query_def py_strip_def py_upper_def
        not_allowed_prefix_Nil prefix_error_not_empty_query)

text \<open>
  C1, as the code has it. When a keyword of the list stands in the normalized text as a
  whole word (no word character before it and none after it), the search of the code
  finds it and the query is rejected. The prefix test comes first: a text that fails it
  is rejected with the reason of the prefix test, which names no keyword; a text that
  passes it is rejected with the reason that names the first keyword, in the order of
  the list, that is found.
\<close>

theorem denylisted_keyword_rejected:
  assumes "i < length disallowed_keywords"
    and "normalize_query u query_string = pre @ str (disallowed_keywords ! i) @ post"
    and "pre = [] \<or> \<not> py_isword u (last pre)"
    and "post = [] \<or> \<not> py_isword u (hd post)"
  shows "re_search_word u (str (disallowed_keywords ! i)) (normalize_query u query_string) \<and>
         validate_query u query_string \<noteq> None \<and>
         (\<not> allowed_prefix (normalize_query u query_string) \<longrightarrow>
            validate_query u query_string = Some prefix_error) \<and>
         (allowed_prefix (normalize_query u query_string) \<longrightarrow>
            (\<exists>j\<le>i.
               re_search_word u (str (disallowed_keywords ! j)) (normalize_query u query_string) \<and>
               (\<forall>k<j. \<not> re_search_word u (str (disallowed_keywords ! k))
                            (normalize_query u query_string)) \<and>
               validate_query u query_string = Some (keyword_error (disallowed_keywords ! j))))"
proof -
  let ?n = "normalize_query u query_string"
  let ?P = "\<lambda>k. re_search_word u (str k) ?n"
  from assms(1) have mem: "disallowed_keywords ! i \<in> set disallowed_keywords" by (rule nth_mem)
  have found: "?P (disallowed_keywords ! i)"
    unfolding keyword_search_iff [OF mem] using assms(2-4) by blast
  with mem have "\<exists>k\<in>set disallowed_keywords. ?P k" by blast
  then obtain k where k: "find ?P disallowed_keywords = Some k"
    by (cases "find ?P disallowed_keywords") (auto simp: find_None_iff)
  then obtain j where j: "j < length disallowed_keywords" "?P (disallowed_keywords ! j)"
      "k = disallowed_keywords ! j" "\<forall>m<j. \<not> ?P (disallowed_keywords ! m)"
    by (auto simp: find_Some_iff)
  have "j \<le> i"
  proof (rule ccontr)
    assume "\<not> j \<le> i"
    then have "i < j" by simp
    with j(4) found show False by blast
  qed
  with j k found show ?thesis by (auto simp: validate_query_find)
qed

theorem denylisted_keyword_rejected_witness:
  "0 < length disallowed_keywords \<and>
   normalize_query ascii_unicode (str ''select 1; Insert into t'')
     = str ''SELECT 1; '' @ str (disallowed_keywords ! 0) @ str '' INTO T'' \<and>
   \<not> py_isword ascii_unicode (last (str ''SELECT 1; '')) \<and>
   \<not> py_isword ascii_unicode (hd (str '' INTO T'')) \<and>
   allowed_prefix (normalize_query ascii_unicode (str ''select 1; Insert into t'')) \<and>
   validate_query ascii_unicode (str ''select 1; Insert into t'') = Some (keyword_error ''INSERT'')"
proof -
  let ?q = "str ''select 1; Insert into t''"
  have h1: "0 < length disallowed_keywords" by (simp add: disallowed_keywords_def)
  have h2: "normalize_query ascii_unicode ?q
              = str ''SELECT 1; '' @ str (disallowed_keywords ! 0) @ str '' INTO T''"
    by code_simp
  have h3: "\<not> py_isword ascii_unicode (last (str ''SELECT 1; ''))"
    by (simp add: str_def py_isword_def)
  have h4: "\<not> py_isword ascii_unicode (hd (str '' INTO T''))"
    by (simp add: str_def py_isword_def)
  have h5: "allowed_prefix (normalize_query ascii_unicode ?q)" by code_simp
  have k: "disallowed_keywords ! 0 = ''INSERT''" by (simp add: disallowed_keywords_def)
  from denylisted_keyword_rejected [OF h1 h2 disjI2 [OF h3] disjI2 [OF h4]] h5
  have "validate_query ascii_unicode ?q = Some (keyword_error (disallowed_keywords ! 0))"
    by auto
  with h1 h2 h3 h4 h5 k show ?thesis by simp
qed

text \<open>
  C1, as the specification has it, fails: \<open>DROP TABLE x\<close> has the keyword \<open>DROP\<close> as a
  whole word and is rejected, but with the reason of the prefix test, not with the one
  that names \<open>DROP\<close>.
\<close>

theorem keyword_reason_counterexample:
  "re_search_word ascii_unicode (str ''DROP'') (normalize_query ascii_unicode (str ''DROP TABLE x'')) \<and>
   validate_query ascii_unicode (str ''DROP TABLE x'') = Some prefix_error \<and>
   prefix_error \<noteq> keyword_error ''DROP''"
proof -
  have "re_search_word ascii_unicode (str ''DROP'')
          (normalize_query ascii_unicode (str ''DROP TABLE x''))"
    by code_simp
  moreover have "validate_query ascii_unicode (str ''DROP TABLE x'') = Some prefix_error"
    by code_simp
  moreover have "prefix_error \<noteq> keyword_error ''DROP''"
    by (simp add: prefix_error_def keyword_error_def str_def)
  ultimately show ?thesis by simp
qed

text \<open>
  C2. A query is admitted exactly when its normalized text passes the prefix test and
  none of the keywords is found in it between word boundaries; so it is admitted when
  it passes the prefix test and every keyword that stands in it has a word character
  next to it, as in \<open>DROPPING\<close> and \<open>CREATOR\<close>. The verdict does not change when
  whitespace is put around the text or when capitals are lowered.
\<close>

theorem admitted_without_denylisted_keyword:
  "(validate_query u s = None \<longleftrightarrow>
      allowed_prefix (normalize_query u s) \<and>
      (\<forall>k\<in>set disallowed_keywords. \<not> re_search_word u (str k) (normalize_query u s))) \<and>
   (allowed_prefix (normalize_query u s) \<and>
    (\<forall>k\<in>set disallowed_keywords. \<forall>pre post.
        normalize_query u s = pre @ str k @ post \<longrightarrow>
        pre \<noteq> [] \<and> py_isword u (last pre) \<or> post \<noteq> [] \<and> py_isword u (hd post)) \<longrightarrow>
      validate_query u s = None) \<and>
   ((\<forall>c\<in>set ws1. py_isspace u c) \<and> (\<forall>c\<in>set ws2. py_isspace u c) \<longrightarrow>
      validate_query u (ws1 @ s @ ws2) = validate_query u s) \<and>
   validate_query u (map ascii_lower s) = validate_query u s \<and>
   validate_query u (str ''SELECT a FROM t WHERE b = '' @ [39] @ str ''DROPPING'' @ [39]) = None \<and>
   validate_query u ([32, 10, 9] @ str ''select a from t where b = '' @ [39] @ str ''Creator'' @ [39, 32])
     = None"
proof -
  have iff: "validate_query u s = None \<longleftrightarrow>
      allowed_prefix (normalize_query u s) \<and>
      (\<forall>k\<in>set disallowed_keywords. \<not> re_search_word u (str k) (normalize_query u s))"
    by (auto simp: validate_query_find find_None_iff)
  have "allowed_prefix (normalize_query u s) \<and>
    (\<forall>k\<in>set disallowed_keywords. \<forall>pre post.
        normalize_query u s = pre @ str k @ post \<longrightarrow>
        pre \<noteq> [] \<and> py_isword u (last pre) \<or> post \<noteq> [] \<and> py_isword u (hd post)) \<longrightarrow>
      validate_query u s = None"
    unfolding iff using keyword_search_iff [of _ u "normalize_query u s"] by blast
  moreover have "(\<forall>c\<in>set ws1. py_isspace u c) \<and> (\<forall>c\<in>set ws2. py_isspace u c) \<longrightarrow>
      validate_query u (ws1 @ s @ ws2) = validate_query u s"
    by (simp add: validate_query_def normalize_query_def py_strip_pad)
  moreover have "validate_query u (map ascii_lower s) = validate_query u s"
    by (simp add: validate_query_def normalize_query_ascii_lower)
  moreover have "validate_query u
      (str ''SELECT a FROM t WHERE b = '' @ [39] @ str ''DROPPING'' @ [39]) = None"
    by code_simp
  moreover have "validate_query u
      ([32, 10, 9] @ str ''select a from t where b = '' @ [39] @ str ''Creator'' @ [39, 32]) = None"
    by code_simp
  ultimately show ?thesis using iff by blast
qed

theorem admitted_without_denylisted_keyword_witness:
  "allowed_prefix (normalize_query ascii_unicode (str ''Show Tables'')) \<and>
   list_all (\<lambda>k. \<not> re_search_word ascii_unicode (str k)
                     (normalize_query ascii_unicode (str ''Show Tables''))) disallowed_keywords \<and>
   validate_query ascii_unicode (str ''Show Tables'') = None \<and>
   list_all (py_isspace ascii_unicode) [10, 10] \<and> list_all (py_isspace ascii_unicode) [32] \<and>
   validate_query ascii_unicode ([10, 10] @ str ''Show Tables'' @ [32]) = None"
proof -
  let ?s = "str ''Show Tables''"
  have h1: "allowed_prefix (normalize_query ascii_unicode ?s)" by code_simp
  have h2: "\<forall>k\<in>set disallowed_keywords.
              \<not> re_search_word ascii_unicode (str k) (normalize_query ascii_unicode ?s)"
    unfolding list_all_iff [symmetric] by code_simp
  have h3: "\<forall>c\<in>set [10, 10]. py_isspace ascii_unicode c" by (simp add: py_isspace_def)
  have h4: "\<forall>c\<in>set [32]. py_isspace ascii_unicode c" by (simp add: py_isspace_def)
  note t = admitted_without_denylisted_keyword
    [where u = ascii_unicode and s = ?s and ?ws1.0 = "[10, 10]" and ?ws2.0 = "[32]"]
  from t [THEN conjunct1] h1 h2 have a: "validate_query ascii_unicode ?s = None" by blast
  from t [THEN conjunct2, THEN conjunct2, THEN conjunct1] h3 h4 a
  have "validate_query ascii_unicode ([10, 10] @ ?s @ [32]) = None" by simp
  with a h1 h2 h3 h4 show ?thesis by (simp add: list_all_iff)
qed

section \<open>Properties of the submission\<close>

text \<open>
  C3. A query that the validation rejects is answered with the rejection as the \<open>error\<close>
  entry, and the client is left as it was: with a client that records its calls, the log
  of calls is the one from before, so no operation of the engine was called.
\<close>

theorem rejected_query_never_reaches_engine:
  "validate_query u query_string = Some message \<Longrightarrow>
     execute_athena_query u self query_string workgroup output_location wait s
       = ([(''error'', VStr message)], s) \<and>
     execute_athena_query u (recorded self') query_string workgroup output_location wait (s', log)
       = ([(''error'', VStr message)], (s', log))"
  by (simp add: execute_athena_query_def)

theorem rejected_query_never_reaches_engine_witness:
  "validate_query ascii_unicode (str ''DROP TABLE x'') = Some prefix_error \<and>
   execute_athena_query ascii_unicode (recorded (scripted_querier (Inr sample_results)))
       (str ''DROP TABLE x'') None None True ([Inr (execution_in ''SUCCEEDED'' None)], [])
     = ([(''error'', VStr prefix_error)], ([Inr (execution_in ''SUCCEEDED'' None)], []))"
proof -
  have h: "validate_query ascii_unicode (str ''DROP TABLE x'') = Some prefix_error"
    by code_simp
  from rejected_query_never_reaches_engine [OF h,
      where self' = "scripted_querier (Inr sample_results)" and workgroup = None
        and output_location = None and wait = True
        and s' = "[Inr (execution_in ''SUCCEEDED'' None)]" and log = "[]", THEN conjunct2] h
  show ?thesis by (rule conjI [rotated])
qed

lemma status_checks_append: "status_checks (xs @ ys) = status_checks xs @ status_checks ys"
  by (induction xs rule: status_checks.induct) simp_all

lemma get_query_execution_recording:
  "get_query_execution (recording c) qid (s, log) =
     (fst (get_query_execution c qid s),
      (snd (get_query_execution c qid s), log @ [Get_query_execution qid (fst (get_query_execution c qid s))]))"
  by (simp add: recording_def split: prod.splits)

lemma poll_status_recording:
  assumes "poll_status rc qid st n sl = (r, sl')" and "rc = recording c"
  shows "\<exists>new. snd sl' = snd sl @ new
           \<and> (\<forall>ev\<in>set new. \<exists>a. ev = Get_query_execution qid a)
           \<and> length (status_checks new) = length new
           \<and> length new \<le> max_retries - n
           \<and> (new = [] \<longleftrightarrow> \<not> (in_progress st \<and> n < max_retries))
           \<and> (new = [] \<longrightarrow> r = Inr st \<and> sl' = sl)
           \<and> (new \<noteq> [] \<longrightarrow> last (status_checks new) = r)
           \<and> (\<forall>x\<in>set (butlast (status_checks new)). \<exists>st'. x = Inr st' \<and> in_progress st')
           \<and> (\<forall>st'. r = Inr st' \<longrightarrow> in_progress st' \<longrightarrow> max_retries \<le> n + length new)"
  using assms
proof (induction rc qid st n sl arbitrary: r sl' rule: poll_status.induct)
  case (1 rc qid st n sl)
  obtain s log where sl: "sl = (s, log)" by (cases sl)
  show ?case
  proof (cases "in_progress st \<and> n < max_retries")
    case False
    then have "poll_status rc qid st n sl = (Inr st, sl)"
      by (subst poll_status.simps) auto
    with "1.prems" have "r = Inr st" "sl' = sl" by simp_all
    with False show ?thesis by (intro exI[of _ "[]"]) auto
  next
    case True
    define a where "a = fst (get_query_execution c qid s)"
    define s0 where "s0 = snd (get_query_execution c qid s)"
    define ev where "ev = Get_query_execution qid a"
    have g: "get_query_execution rc qid sl = (a, (s0, log @ [ev]))"
      unfolding "1.prems"(2) sl a_def s0_def ev_def by (rule get_query_execution_recording)
    have unf: "poll_status rc qid st n sl =
        (case a of Inl e \<Rightarrow> (Inl e, (s0, log @ [ev]))
         | Inr status_response \<Rightarrow>
            (case response_state status_response of
               Inl e \<Rightarrow> (Inl e, (s0, log @ [ev]))
             | Inr status' \<Rightarrow> poll_status rc qid status' (n + 1) (s0, log @ [ev])))"
      by (subst poll_status.simps) (simp add: True g)
    show ?thesis
    proof (cases a)
      case (Inl e)
      with unf "1.prems" have "r = Inl e" "sl' = (s0, log @ [ev])" by simp_all
      with Inl True show ?thesis
        by (intro exI[of _ "[ev]"]) (auto simp: sl ev_def)
    next
      case (Inr resp)
      show ?thesis
      proof (cases "response_state resp")
        case (Inl e)
        with unf Inr "1.prems" have "r = Inl e" "sl' = (s0, log @ [ev])" by simp_all
        with Inl Inr True show ?thesis
          by (intro exI[of _ "[ev]"]) (auto simp: sl ev_def)
      next
        case st': (Inr st')
        with unf Inr "1.prems" have rec: "poll_status rc qid st' (n + 1) (s0, log @ [ev]) = (r, sl')"
          by simp
        have "\<exists>new. snd sl' = snd (s0, log @ [ev]) @ new
           \<and> (\<forall>ev\<in>set new. \<exists>a. ev = Get_query_execution qid a)
           \<and> length (status_checks new) = length new
           \<and> length new \<le> max_retries - (n + 1)
           \<and> (new = [] \<longleftrightarrow> \<not> (in_progress st' \<and> n + 1 < max_retries))
           \<and> (new = [] \<longrightarrow> r = Inr st' \<and> sl' = (s0, log @ [ev]))
           \<and> (new \<noteq> [] \<longrightarrow> last (status_checks new) = r)
           \<and> (\<forall>x\<in>set (butlast (status_checks new)). \<exists>st'. x = Inr st' \<and> in_progress st')
           \<and> (\<forall>st''. r = Inr st'' \<longrightarrow> in_progress st'' \<longrightarrow> max_retries \<le> n + 1 + length new)"
          using "1.IH"[OF True g[symmetric] Inr st' rec "1.prems"(2)] by simp
        then obtain new where new:
          "snd sl' = (log @ [ev]) @ new"
          "\<forall>ev\<in>set new. \<exists>a. ev = Get_query_execution qid a"
          "length (status_checks new) = length new"
          "length new \<le> max_retries - (n + 1)"
          "new = [] \<longleftrightarrow> \<not> (in_progress st' \<and> n + 1 < max_retries)"
          "new = [] \<longrightarrow> r = Inr st' \<and> sl' = (s0, log @ [ev])"
          "new \<noteq> [] \<longrightarrow> last (status_checks new) = r"
          "\<forall>x\<in>set (butlast (status_checks new)). \<exists>st'. x = Inr st' \<and> in_progress st'"
          "\<forall>st''. r = Inr st'' \<longrightarrow> in_progress st'' \<longrightarrow> max_retries \<le> n + 1 + length new"
          by auto
        have sc: "status_checks (ev # new) = Inr st' # status_checks new"
          by (simp add: ev_def Inr st')
        have "snd sl' = snd sl @ (ev # new)" using new(1) by (simp add: sl)
        moreover have "\<forall>e\<in>set (ev # new). \<exists>a. e = Get_query_execution qid a"
          using new(2) by (simp add: ev_def)
        moreover have "length (status_checks (ev # new)) = length (ev # new)"
          using new(3) by (simp add: sc)
        moreover have "length (ev # new) \<le> max_retries - n"
          using new(4) True by auto
        moreover have "(ev # new = []) \<longleftrightarrow> \<not> (in_progress st \<and> n < max_retries)"
          using True by simp
        moreover have "last (status_checks (ev # new)) = r"
        proof (cases "new = []")
          case True
          with new(6) sc show ?thesis by simp
        next
          case False
          with new(7) new(3) show ?thesis by (auto simp add: sc)
        qed
        moreover have "\<forall>x\<in>set (butlast (status_checks (ev # new))). \<exists>st'. x = Inr st' \<and> in_progress st'"
        proof (cases "new = []")
          case True
          with sc show ?thesis by simp
        next
          case False
          then have "in_progress st'" using new(5) by simp
          moreover have "status_checks new \<noteq> []" using False new(3) by auto
          ultimately show ?thesis using new(8) by (simp add: sc)
        qed
        moreover have "\<forall>st''. r = Inr st'' \<longrightarrow> in_progress st'' \<longrightarrow> max_retries \<le> n + length (ev # new)"
          using new(9) by simp
        ultimately show ?thesis by (intro exI[of _ "ev # new"]) simp
      qed
    qed
  qed
qed


lemma in_progress_simps:
  "in_progress (str ''RUNNING'')" "in_progress (str ''QUEUED'')"
  "\<not> in_progress (str ''SUCCEEDED'')" "\<not> in_progress (str ''FAILED'')"
  "\<not> in_progress (str ''CANCELLED'')"
  by (simp_all add: in_progress_def str_eq_iff)

lemma start_query_execution_recording:
  "start_query_execution (recording c) q wg ol (s, log) =
     (fst (start_query_execution c q wg ol s),
      (snd (start_query_execution c q wg ol s),
       log @ [Start_query_execution q wg ol (fst (start_query_execution c q wg ol s))]))"
  by (simp add: recording_def split: prod.splits)

lemma get_query_results_recording:
  "get_query_results (recording c) qid m (s, log) =
     (fst (get_query_results c qid m s),
      (snd (get_query_results c qid m s),
       log @ [Get_query_results qid m (fst (get_query_results c qid m s))]))"
  by (simp add: recording_def split: prod.splits)

text \<open>
  What a submission that waits does, read off the log of a recording client: nothing at
  all; or the start alone; or the start, then the status checks, then at most one request
  for the results.
\<close>

lemma execute_wait_recorded:
  assumes run: "execute_athena_query u (recorded self) q wg ol True (s, log) = (result, (s', log'))"
  obtains
    (rejected) "log' = log" "s' = s" "map fst result = [''error'']"
  | (start_failed) a where
      "log' = log @ [Start_query_execution q (py_or wg (athena_workgroup self))
                       (py_or ol (athena_output_location self)) a]"
      "map fst result = [''error'']"
  | (polled) resp qid polls tail r where
      "log' = log @ Start_query_execution q (py_or wg (athena_workgroup self))
                       (py_or ol (athena_output_location self)) (Inr resp) # polls @ tail"
      "QueryExecutionId resp = Some qid"
      "polls \<noteq> []"
      "\<forall>ev\<in>set polls. \<exists>a. ev = Get_query_execution qid a"
      "length (status_checks polls) = length polls"
      "length polls \<le> max_retries"
      "last (status_checks polls) = r"
      "\<forall>x\<in>set (butlast (status_checks polls)). \<exists>st. x = Inr st \<and> in_progress st"
      "\<forall>st. r = Inr st \<longrightarrow> in_progress st \<longrightarrow> length polls = max_retries"
      "case r of
         Inl e \<Rightarrow> tail = [] \<and> result = error_dict e
       | Inr st \<Rightarrow>
           if st = str ''SUCCEEDED'' then
             (\<exists>a. tail = [Get_query_results qid None a] \<and>
                  result = (case a of
                              Inl e \<Rightarrow> error_dict e
                            | Inr rr \<Rightarrow> base_result qid (py_or ol (athena_output_location self)) st
                                         @ [(''Results'', VResponse rr)]))
           else tail = [] \<and> result = base_result qid (py_or ol (athena_output_location self)) st"
proof -
  define wg' where "wg' = py_or wg (athena_workgroup self)"
  define ol' where "ol' = py_or ol (athena_output_location self)"
  note defs = execute_athena_query_def recorded_def wg'_def[symmetric] ol'_def[symmetric]
  show thesis
  proof (cases "validate_query u q")
    case (Some m)
    with run have "result = [(''error'', VStr m)]" "s' = s" "log' = log"
      by (simp_all add: defs)
    then show thesis by (intro rejected) simp_all
  next
    case None
    show thesis
    proof (cases "session_client self")
      case (Inl e)
      with run None have "result = error_dict e" "s' = s" "log' = log"
        by (simp_all add: defs)
      then show thesis by (intro rejected) (simp_all add: error_dict_def)
    next
      case (Inr c)
      define a where "a = fst (start_query_execution c q wg' ol' s)"
      define s1 where "s1 = snd (start_query_execution c q wg' ol' s)"
      define log1 where "log1 = log @ [Start_query_execution q wg' ol' a]"
      have st: "start_query_execution (recording c) q wg' ol' (s, log) = (a, (s1, log1))"
        unfolding a_def s1_def log1_def by (rule start_query_execution_recording)
      show thesis
      proof (cases a)
        case e: (Inl e)
        with run None Inr st have "result = error_dict e" "log' = log1"
          by (simp_all add: defs)
        then show thesis
          by (intro start_failed[of a]) (simp_all add: error_dict_def log1_def wg'_def ol'_def)
      next
        case resp: (Inr resp)
        show thesis
        proof (cases "QueryExecutionId resp")
          case noid: None
          with run None Inr st resp have "result = error_dict (KeyError ''QueryExecutionId'')" "log' = log1"
            by (simp_all add: defs)
          then show thesis
            by (intro start_failed[of a]) (simp_all add: error_dict_def log1_def wg'_def ol'_def)
        next
          case qid: (Some qid)
          obtain r s2 log2 where p: "poll_status (recording c) qid (str ''RUNNING'') 0 (s1, log1) = (r, (s2, log2))"
            by (metis surj_pair)
          from poll_status_recording[OF p refl]
          obtain polls where raw:
            "snd (s2, log2) = snd (s1, log1) @ polls"
            "\<forall>ev\<in>set polls. \<exists>a. ev = Get_query_execution qid a"
            "length (status_checks polls) = length polls"
            "length polls \<le> max_retries - 0"
            "polls = [] \<longleftrightarrow> \<not> (in_progress (str ''RUNNING'') \<and> 0 < max_retries)"
            "polls \<noteq> [] \<longrightarrow> last (status_checks polls) = r"
            "\<forall>x\<in>set (butlast (status_checks polls)). \<exists>st'. x = Inr st' \<and> in_progress st'"
            "\<forall>st'. r = Inr st' \<longrightarrow> in_progress st' \<longrightarrow> max_retries \<le> 0 + length polls"
            by blast
          have pos: "0 < max_retries" by (simp add: max_retries_def)
          have polls:
            "log2 = log1 @ polls"
            "\<forall>ev\<in>set polls. \<exists>a. ev = Get_query_execution qid a"
            "length (status_checks polls) = length polls"
            "length polls \<le> max_retries"
            "polls \<noteq> []"
            "last (status_checks polls) = r"
            "\<forall>x\<in>set (butlast (status_checks polls)). \<exists>st'. x = Inr st' \<and> in_progress st'"
            "\<forall>st'. r = Inr st' \<longrightarrow> in_progress st' \<longrightarrow> max_retries \<le> length polls"
            using raw pos by (simp_all add: in_progress_simps)
          have exh: "\<forall>st. r = Inr st \<longrightarrow> in_progress st \<longrightarrow> length polls = max_retries"
            using polls(4,8) by auto
          note ctx = run None Inr st resp qid p
          show thesis
          proof (cases r)
            case e: (Inl e)
            with ctx have "result = error_dict e" "log' = log2" by (simp_all add: defs)
            then show thesis
              using polls exh qid e
              by (intro polled[of resp polls "[]" qid r])
                 (simp_all add: log1_def wg'_def ol'_def resp)
          next
            case status: (Inr status)
            show thesis
            proof (cases "status = str ''SUCCEEDED''")
              case False
              with ctx status have "result = base_result qid ol' status" "log' = log2"
                by (simp_all add: defs base_result_def)
              then show thesis
                using polls exh qid status False
                by (intro polled[of resp polls "[]" qid r])
                   (simp_all add: log1_def wg'_def ol'_def resp)
            next
              case True
              define b where "b = fst (get_query_results c qid None s2)"
              define s3 where "s3 = snd (get_query_results c qid None s2)"
              have gr: "get_query_results (recording c) qid None (s2, log2) =
                          (b, (s3, log2 @ [Get_query_results qid None b]))"
                unfolding b_def s3_def by (rule get_query_results_recording)
              from ctx status True gr
              have "result = (case b of Inl e \<Rightarrow> error_dict e
                              | Inr rr \<Rightarrow> base_result qid ol' status @ [(''Results'', VResponse rr)])"
                   "log' = log2 @ [Get_query_results qid None b]"
                by (simp_all add: defs base_result_def split: sum.splits)
              then show thesis
                using polls exh qid status True
                by (intro polled[of resp polls "[Get_query_results qid None b]" qid r])
                   (simp_all add: log1_def wg'_def ol'_def resp cong: sum.case_cong)
            qed
          qed
        qed
      qed
    qed
  qed
qed

lemma status_checks_other:
  "status_checks (Start_query_execution q wg ol a # log) = status_checks log"
  "status_checks [Get_query_results qid m b] = []"
  by simp_all

lemma status_checks_replicate:
  "status_checks (replicate k (Get_query_execution qid (Inr r))) = replicate k (response_state r)"
  by (induction k) simp_all

lemma response_state_execution_in: "response_state (execution_in st reason) = Inr (str st)"
  by (simp add: response_state_def execution_in_def)

lemma poll_status_always_running:
  assumes "in_progress st" and "n + k = max_retries"
  shows "poll_status (recording (scripted_client res)) qid st n
           (replicate k (Inr (execution_in ''RUNNING'' None)), log)
         = (Inr (if k = 0 then st else str ''RUNNING''),
            ([], log @ replicate k (Get_query_execution qid (Inr (execution_in ''RUNNING'' None)))))"
  using assms
proof (induction k arbitrary: st n log)
  case 0
  then show ?case by (subst poll_status.simps) simp
next
  case (Suc k)
  let ?r = "execution_in ''RUNNING'' None"
  let ?ev = "Get_query_execution qid (Inr ?r)"
  have g: "get_query_execution (recording (scripted_client res)) qid (Inr ?r # replicate k (Inr ?r), log)
             = (Inr ?r, (replicate k (Inr ?r), log @ [?ev]))"
    by (simp add: recording_def scripted_client_def)
  have rec: "poll_status (recording (scripted_client res)) qid (str ''RUNNING'') (Suc n)
               (replicate k (Inr ?r), log @ [?ev])
             = (Inr (str ''RUNNING''), ([], log @ ?ev # replicate k ?ev))"
    using Suc.prems Suc.IH [of "str ''RUNNING''" "Suc n" "log @ [?ev]"]
    by (simp add: in_progress_simps)
  from Suc.prems have "n < max_retries" by simp
  with Suc.prems(1) show ?case
    by (subst poll_status.simps) (simp add: g response_state_execution_in rec)
qed

lemma start_query_execution_scripted:
  "start_query_execution (scripted_client res) q wg ol s = (Inr \<lparr>QueryExecutionId = Some (str ''q-1'')\<rparr>, s)"
  by (simp add: scripted_client_def)

lemma validate_select_1: "validate_query ascii_unicode (str ''SELECT 1'') = None"
  by code_simp

lemma exhausted_run_eq:
  "exhausted_run =
     (base_result (str ''q-1'') (str ''s3://results/'') (str ''RUNNING''),
      ([], Start_query_execution (str ''SELECT 1'') (str ''primary'') (str ''s3://results/'')
             (Inr \<lparr>QueryExecutionId = Some (str ''q-1'')\<rparr>)
           # replicate 100 (Get_query_execution (str ''q-1'') (Inr (execution_in ''RUNNING'' None)))))"
proof -
  have p: "poll_status (recording (scripted_client (Inr sample_results))) (str ''q-1'') (str ''RUNNING'') 0
             (replicate 100 (Inr (execution_in ''RUNNING'' None)),
              [Start_query_execution (str ''SELECT 1'') (str ''primary'') (str ''s3://results/'')
                 (Inr \<lparr>QueryExecutionId = Some (str ''q-1'')\<rparr>)])
           = (Inr (str ''RUNNING''),
              ([], [Start_query_execution (str ''SELECT 1'') (str ''primary'') (str ''s3://results/'')
                 (Inr \<lparr>QueryExecutionId = Some (str ''q-1'')\<rparr>)]
                @ replicate 100 (Get_query_execution (str ''q-1'') (Inr (execution_in ''RUNNING'' None)))))"
    using poll_status_always_running [of "str ''RUNNING''" 0 100 "Inr sample_results" "str ''q-1''"]
    by (simp add: in_progress_simps max_retries_def)
  have ns: "str ''RUNNING'' \<noteq> str ''SUCCEEDED''" by (simp add: str_eq_iff)
  show ?thesis
    unfolding exhausted_run_def sample_submit_def execute_athena_query_def
    by (simp add: validate_select_1 recorded_def scripted_querier_def py_or_def
          start_query_execution_recording start_query_execution_scripted p ns base_result_def
          Let_def)
qed

lemma failed_run_checks: "status_checks (snd (snd failed_run)) = [Inr (str ''FAILED'')]"
  by code_simp

lemma succeeded_run_checks:
  "status_checks (snd (snd succeeded_run)) = [Inr (str ''RUNNING''), Inr (str ''SUCCEEDED'')]"
  by code_simp

text \<open>
  C9. A submission that waits checks the status at most 100 times: in the log of a
  recording client, the calls the submission adds hold at most 100 status checks. Every
  check but the last one saw \<open>QUEUED\<close> or \<open>RUNNING\<close>, so the loop stops at the first
  status outside these two. When the last check still saw \<open>QUEUED\<close> or \<open>RUNNING\<close>, all
  100 checks were made, and the result is not an error: it holds the execution id, the
  output location and that last status. The loop \<open>poll_status\<close> is a total function, by
  the termination proof at its definition, and with it the submission always returns.
\<close>

theorem poll_loop_bounded:
  assumes "execute_athena_query u (recorded self) query_string workgroup output_location True (s, log)
             = (result, (s', log'))"
  shows "\<exists>new. log' = log @ new \<and>
           length (status_checks new) \<le> 100 \<and>
           (\<forall>x\<in>set (butlast (status_checks new)). \<exists>st. x = Inr st \<and> in_progress st) \<and>
           (\<forall>st. status_checks new \<noteq> [] \<and> last (status_checks new) = Inr st \<and> in_progress st \<longrightarrow>
                 length (status_checks new) = 100 \<and>
                 map fst result = [''QueryExecutionId'', ''OutputLocation'', ''Status''] \<and>
                 map_of result ''Status'' = Some (VStr st))"
  using assms
proof (cases rule: execute_wait_recorded)
  case rejected
  then show ?thesis by (intro exI[of _ "[]"]) simp
next
  case (start_failed a)
  then show ?thesis by (intro exI[of _ "[Start_query_execution query_string
      (py_or workgroup (athena_workgroup self)) (py_or output_location (athena_output_location self)) a]"]) simp
next
  case (polled resp qid polls tail r)
  let ?new = "Start_query_execution query_string (py_or workgroup (athena_workgroup self))
                (py_or output_location (athena_output_location self)) (Inr resp) # polls @ tail"
  have tail: "status_checks tail = []"
    using polled(10) by (cases r) (auto split: if_splits)
  have sc: "status_checks ?new = status_checks polls"
    by (simp add: status_checks_append tail)
  have "log' = log @ ?new" using polled(1) by simp
  moreover have "length (status_checks ?new) \<le> 100"
    unfolding sc using polled(5,6) by (simp add: max_retries_def)
  moreover have "\<forall>x\<in>set (butlast (status_checks ?new)). \<exists>st. x = Inr st \<and> in_progress st"
    using polled(8) by (simp only: sc)
  moreover have "\<forall>st. status_checks ?new \<noteq> [] \<and> last (status_checks ?new) = Inr st \<and> in_progress st \<longrightarrow>
                 length (status_checks ?new) = 100 \<and>
                 map fst result = [''QueryExecutionId'', ''OutputLocation'', ''Status''] \<and>
                 map_of result ''Status'' = Some (VStr st)"
  proof (intro allI impI, elim conjE)
    fix st
    assume a: "last (status_checks ?new) = Inr st" "in_progress st"
    then have r: "r = Inr st" using polled(7) by (simp only: sc)
    from a(2) have ns: "st \<noteq> str ''SUCCEEDED''" using in_progress_simps(3) by auto
    from polled(10) r ns have res: "result = base_result qid (py_or output_location (athena_output_location self)) st"
      by simp
    from polled(9) r a(2) have "length polls = max_retries" by simp
    then have "length (status_checks ?new) = 100" unfolding sc using polled(5) by (simp add: max_retries_def)
    with res show "length (status_checks ?new) = 100 \<and>
                 map fst result = [''QueryExecutionId'', ''OutputLocation'', ''Status''] \<and>
                 map_of result ''Status'' = Some (VStr st)"
      by (simp add: base_result_def)
  qed
  ultimately show ?thesis by blast
qed

theorem poll_loop_bounded_witness:
  "length (status_checks (snd (snd exhausted_run))) = 100 \<and>
   last (status_checks (snd (snd exhausted_run))) = Inr (str ''RUNNING'') \<and>
   in_progress (str ''RUNNING'') \<and>
   map_of (fst exhausted_run) ''Status'' = Some (VStr (str ''RUNNING'')) \<and>
   map_of (fst exhausted_run) ''error'' = None"
proof -
  let ?L = "snd (snd exhausted_run)"
  have e: "execute_athena_query ascii_unicode (recorded (scripted_querier (Inr sample_results)))
             (str ''SELECT 1'') None None True (replicate 100 (Inr (execution_in ''RUNNING'' None)), [])
           = (fst exhausted_run, (fst (snd exhausted_run), ?L))"
    by (simp add: exhausted_run_def sample_submit_def)
  have sc: "status_checks ?L = replicate 100 (Inr (str ''RUNNING''))"
    by (simp add: exhausted_run_eq status_checks_replicate response_state_execution_in)
  have h1: "status_checks ?L \<noteq> []" by (simp add: sc)
  have h2: "last (status_checks ?L) = Inr (str ''RUNNING'')" by (simp add: sc)
  from poll_loop_bounded [OF e] obtain new where new: "?L = [] @ new"
    "\<forall>st. status_checks new \<noteq> [] \<and> last (status_checks new) = Inr st \<and> in_progress st \<longrightarrow>
          length (status_checks new) = 100 \<and>
          map fst (fst exhausted_run) = [''QueryExecutionId'', ''OutputLocation'', ''Status''] \<and>
          map_of (fst exhausted_run) ''Status'' = Some (VStr st)"
    by blast
  from new(1) have n: "new = ?L" by simp
  from new(2) h1 h2 have c: "length (status_checks ?L) = 100"
    "map fst (fst exhausted_run) = [''QueryExecutionId'', ''OutputLocation'', ''Status'']"
    "map_of (fst exhausted_run) ''Status'' = Some (VStr (str ''RUNNING''))"
    unfolding n using in_progress_simps(1) by blast+
  have "map_of (fst exhausted_run) ''error'' = None"
    by (simp add: map_of_eq_None_iff image_set c(2) del: set_map)
  with c h2 show ?thesis by (simp add: in_progress_simps)
qed

text \<open>
  C4, as the code has it. When the last status check of a submission that waits saw
  \<open>SUCCEEDED\<close>, the last call of the submission is one \<open>get_query_results\<close> for the
  execution, without \<open>MaxResults\<close>. When that call raises, the result is the error;
  otherwise the result holds the execution id, the output location, the status and,
  under \<open>Results\<close>, the response of the engine as it came: no normalization is run on it.
\<close>

theorem succeeded_query_outcome:
  assumes "execute_athena_query u (recorded self) query_string workgroup output_location True (s, log)
             = (result, (s', log @ new))"
    and "status_checks new \<noteq> []"
    and "last (status_checks new) = Inr (str ''SUCCEEDED'')"
  shows "\<exists>query_execution_id answer.
           last new = Get_query_results query_execution_id None answer \<and>
           result =
             (case answer of
                Inl e \<Rightarrow> [(''error'', VStr (exception_str e))]
              | Inr results_response \<Rightarrow>
                  [(''QueryExecutionId'', VStr query_execution_id),
                   (''OutputLocation'', VStr (py_or output_location (athena_output_location self)
                                                @ query_execution_id @ str ''.csv'')),
                   (''Status'', VStr (str ''SUCCEEDED'')),
                   (''Results'', VResponse results_response)])"
  using assms(1)
proof (cases rule: execute_wait_recorded)
  case rejected
  with assms(2) show ?thesis by simp
next
  case (start_failed a)
  with assms(2) show ?thesis by simp
next
  case (polled resp qid polls tail r)
  let ?start = "Start_query_execution query_string (py_or workgroup (athena_workgroup self))
                (py_or output_location (athena_output_location self)) (Inr resp)"
  have new: "new = ?start # polls @ tail" using polled(1) by simp
  have tail: "status_checks tail = []"
    using polled(10) by (cases r) (auto split: if_splits)
  have sc: "status_checks new = status_checks polls"
    by (simp add: new status_checks_append tail)
  from assms(3) polled(7) have r: "r = Inr (str ''SUCCEEDED'')" by (simp only: sc)
  from polled(10) r obtain a where a: "tail = [Get_query_results qid None a]"
    "result = (case a of Inl e \<Rightarrow> error_dict e
               | Inr rr \<Rightarrow> base_result qid (py_or output_location (athena_output_location self))
                             (str ''SUCCEEDED'') @ [(''Results'', VResponse rr)])"
    by auto
  show ?thesis
    by (intro exI[of _ qid] exI[of _ a]) (simp add: new a base_result_def error_dict_def split: sum.splits)
qed

theorem succeeded_query_outcome_witness:
  "status_checks (snd (snd succeeded_run)) \<noteq> [] \<and>
   last (status_checks (snd (snd succeeded_run))) = Inr (str ''SUCCEEDED'') \<and>
   (\<exists>query_execution_id answer.
      last (snd (snd succeeded_run)) = Get_query_results query_execution_id None answer \<and>
      fst succeeded_run =
        (case answer of
           Inl e \<Rightarrow> [(''error'', VStr (exception_str e))]
         | Inr results_response \<Rightarrow>
             [(''QueryExecutionId'', VStr query_execution_id),
              (''OutputLocation'', VStr (str ''s3://results/'' @ query_execution_id @ str ''.csv'')),
              (''Status'', VStr (str ''SUCCEEDED'')),
              (''Results'', VResponse results_response)]))"
proof -
  let ?L = "snd (snd succeeded_run)"
  have e: "execute_athena_query ascii_unicode (recorded (scripted_querier (Inr sample_results)))
             (str ''SELECT 1'') None None True
             ([Inr (execution_in ''RUNNING'' None), Inr (execution_in ''SUCCEEDED'' None)], [])
           = (fst succeeded_run, (fst (snd succeeded_run), [] @ ?L))"
    by (simp add: succeeded_run_def sample_submit_def)
  have h1: "status_checks ?L \<noteq> []" by (simp add: succeeded_run_checks)
  have h2: "last (status_checks ?L) = Inr (str ''SUCCEEDED'')" by (simp add: succeeded_run_checks)
  have ol: "py_or None (athena_output_location (scripted_querier (Inr sample_results)))
              = str ''s3://results/''"
    by (simp add: scripted_querier_def py_or_def)
  from succeeded_query_outcome [OF e h1 h2, unfolded ol] h1 h2 show ?thesis
    by (intro conjI)
qed

text \<open>
  C4, as the specification has it, fails: for the sample response, \<open>Results\<close> is the
  response itself, with its three rows, the header among them, and the result has no
  \<open>ColumnInfo\<close>, \<open>Rows\<close> or \<open>RowCount\<close>; fetching the results of the same execution gives
  two rows.
\<close>

theorem raw_results_counterexample:
  "last (status_checks (snd (snd succeeded_run))) = Inr (str ''SUCCEEDED'') \<and>
   map_of (fst succeeded_run) ''Results'' = Some (VResponse sample_results) \<and>
   map_of (fst succeeded_run) ''ColumnInfo'' = None \<and>
   map_of (fst succeeded_run) ''Rows'' = None \<and>
   map_of (fst succeeded_run) ''RowCount'' = None \<and>
   map_option length (Rows (the (ResultSet sample_results))) = Some 3 \<and>
   map_of (fst (get_athena_query_results (scripted_querier (Inr sample_results)) (str ''q-1'') 1000
                  [Inr (execution_in ''SUCCEEDED'' None)])) ''RowCount'' = Some (VInt 2)"
proof -
  have "last (status_checks (snd (snd succeeded_run))) = Inr (str ''SUCCEEDED'')"
    by (simp add: succeeded_run_checks)
  moreover have "map_of (fst succeeded_run) ''Results'' = Some (VResponse sample_results)"
    by code_simp
  moreover have "map_of (fst succeeded_run) ''ColumnInfo'' = None" by code_simp
  moreover have "map_of (fst succeeded_run) ''Rows'' = None" by code_simp
  moreover have "map_of (fst succeeded_run) ''RowCount'' = None" by code_simp
  moreover have "map_option length (Rows (the (ResultSet sample_results))) = Some 3"
    by (simp add: sample_results_def sample_rows_def)
  moreover have "map_of (fst (get_athena_query_results (scripted_querier (Inr sample_results)) (str ''q-1'') 1000
                  [Inr (execution_in ''SUCCEEDED'' None)])) ''RowCount'' = Some (VInt 2)"
    by code_simp
  ultimately show ?thesis by simp
qed

text \<open>
  C5, as the code has it. When the last status check of a submission that waits saw
  \<open>FAILED\<close>, the submission returns a result that is not an error and holds three
  entries only: the execution id, the output location and the status \<open>FAILED\<close>. The
  reason the engine gave is not part of it, and the results are not requested.
\<close>

theorem failed_query_outcome:
  assumes "execute_athena_query u (recorded self) query_string workgroup output_location True (s, log)
             = (result, (s', log @ new))"
    and "status_checks new \<noteq> []"
    and "last (status_checks new) = Inr (str ''FAILED'')"
  shows "\<exists>query_execution_id.
           result = [(''QueryExecutionId'', VStr query_execution_id),
                     (''OutputLocation'', VStr (py_or output_location (athena_output_location self)
                                                  @ query_execution_id @ str ''.csv'')),
                     (''Status'', VStr (str ''FAILED''))] \<and>
           list_all (\<lambda>ev. case ev of Get_query_results q m a \<Rightarrow> False | _ \<Rightarrow> True) new"
  using assms(1)
proof (cases rule: execute_wait_recorded)
  case rejected
  with assms(2) show ?thesis by simp
next
  case (start_failed a)
  with assms(2) show ?thesis by simp
next
  case (polled resp qid polls tail r)
  let ?start = "Start_query_execution query_string (py_or workgroup (athena_workgroup self))
                (py_or output_location (athena_output_location self)) (Inr resp)"
  have new: "new = ?start # polls @ tail" using polled(1) by simp
  have tail: "status_checks tail = []"
    using polled(10) by (cases r) (auto split: if_splits)
  have sc: "status_checks new = status_checks polls"
    by (simp add: new status_checks_append tail)
  from assms(3) polled(7) have r: "r = Inr (str ''FAILED'')" by (simp only: sc)
  have ns: "str ''FAILED'' \<noteq> str ''SUCCEEDED''" by (simp add: str_eq_iff)
  from polled(10) r ns have res: "result = base_result qid (py_or output_location (athena_output_location self)) (str ''FAILED'')"
    and t: "tail = []" by simp_all
  have "list_all (\<lambda>ev. case ev of Get_query_results q m a \<Rightarrow> False | _ \<Rightarrow> True) new"
    using polled(4) by (auto simp: new t list_all_iff)
  with res show ?thesis by (intro exI[of _ qid]) (simp add: base_result_def)
qed

theorem failed_query_outcome_witness:
  "status_checks (snd (snd failed_run)) \<noteq> [] \<and>
   last (status_checks (snd (snd failed_run))) = Inr (str ''FAILED'') \<and>
   (\<exists>query_execution_id.
      fst failed_run = [(''QueryExecutionId'', VStr query_execution_id),
                        (''OutputLocation'', VStr (str ''s3://results/'' @ query_execution_id @ str ''.csv'')),
                        (''Status'', VStr (str ''FAILED''))] \<and>
      list_all (\<lambda>ev. case ev of Get_query_results q m a \<Rightarrow> False | _ \<Rightarrow> True) (snd (snd failed_run)))"
proof -
  let ?L = "snd (snd failed_run)"
  have e: "execute_athena_query ascii_unicode (recorded (scripted_querier (Inr sample_results)))
             (str ''SELECT 1'') None None True
             ([Inr (execution_in ''FAILED'' (Some (str ''SYNTAX_ERROR'')))], [])
           = (fst failed_run, (fst (snd failed_run), [] @ ?L))"
    by (simp add: failed_run_def sample_submit_def)
  have h1: "status_checks ?L \<noteq> []" by (simp add: failed_run_checks)
  have h2: "last (status_checks ?L) = Inr (str ''FAILED'')" by (simp add: failed_run_checks)
  have ol: "py_or None (athena_output_location (scripted_querier (Inr sample_results)))
              = str ''s3://results/''"
    by (simp add: scripted_querier_def py_or_def)
  from failed_query_outcome [OF e h1 h2, unfolded ol] h1 h2 show ?thesis
    by (intro conjI)
qed

text \<open>
  C5, as the specification has it, fails: the engine reports \<open>FAILED\<close> with the reason
  \<open>SYNTAX_ERROR\<close>, and the result of the submission does not hold the reason; fetching
  the results of the same execution gives it, under \<open>ErrorMessage\<close>.
\<close>

theorem failure_reason_counterexample:
  "status_checks (snd (snd failed_run)) = [Inr (str ''FAILED'')] \<and>
   fst failed_run = [(''QueryExecutionId'', VStr (str ''q-1'')),
                     (''OutputLocation'', VStr (str ''s3://results/q-1.csv'')),
                     (''Status'', VStr (str ''FAILED''))] \<and>
   map_of (fst (get_athena_query_results (scripted_querier (Inr sample_results)) (str ''q-1'') 1000
                  [Inr (execution_in ''FAILED'' (Some (str ''SYNTAX_ERROR'')))])) ''ErrorMessage''
     = Some (VStr (str ''SYNTAX_ERROR''))"
proof -
  have "status_checks (snd (snd failed_run)) = [Inr (str ''FAILED'')]" by (rule failed_run_checks)
  moreover have "fst failed_run = [(''QueryExecutionId'', VStr (str ''q-1'')),
                     (''OutputLocation'', VStr (str ''s3://results/q-1.csv'')),
                     (''Status'', VStr (str ''FAILED''))]"
    by code_simp
  moreover have "map_of (fst (get_athena_query_results (scripted_querier (Inr sample_results)) (str ''q-1'') 1000
                  [Inr (execution_in ''FAILED'' (Some (str ''SYNTAX_ERROR'')))])) ''ErrorMessage''
     = Some (VStr (str ''SYNTAX_ERROR''))"
    by code_simp
  ultimately show ?thesis by simp
qed

section \<open>Properties of fetching the results\<close>

lemma fill_data_zip:
  assumes "Data row = Some cells"
  shows "fill_data row (List.enumerate i cs) data =
           Inr (fold (\<lambda>(col_info, cell). AList.update (column_name col_info) (cell_text cell))
                  (zip cs (drop i cells)) data)"
proof (induction cs arbitrary: i data)
  case Nil
  then show ?case by simp
next
  case (Cons c cs)
  show ?case
  proof (cases "i < length cells")
    case True
    then have d: "drop i cells = cells ! i # drop (Suc i) cells"
      by (simp add: Cons_nth_drop_Suc)
    show ?thesis
      using True assms by (simp add: d list_getitem_def Cons.IH cell_text_def)
  next
    case False
    then show ?thesis using assms by (simp add: Cons.IH)
  qed
qed

lemma fill_data_zip_row:
  "Data row = Some cells \<Longrightarrow> fill_data row (List.enumerate 0 column_info) [] = Inr (zip_row column_info cells)"
  by (simp add: fill_data_zip zip_row_def)

lemma fill_data_no_IndexError: "fill_data row ics data \<noteq> Inl IndexError"
  by (induction row ics data rule: fill_data.induct)
     (auto simp: list_getitem_def split: option.splits)

lemma process_rows_no_IndexError:
  "process_rows column_info raw_rows header_processed rows \<noteq> Inl IndexError"
proof (induction column_info raw_rows header_processed rows rule: process_rows.induct)
  case (1 column_info header_processed rows)
  then show ?case by simp
next
  case (2 column_info row rest header_processed rows)
  then show ?case
    using fill_data_no_IndexError [of row "List.enumerate 0 column_info" "[]"]
    by (auto split: sum.splits)
qed

lemma process_rows_after_header:
  assumes "\<forall>row\<in>set raw_rows. Data row \<noteq> None"
  shows "process_rows column_info raw_rows True rows =
           Inr (rows @ map (\<lambda>row. zip_row column_info (the (Data row))) raw_rows)"
  using assms
proof (induction raw_rows arbitrary: rows)
  case Nil
  then show ?case by simp
next
  case (Cons row rest)
  then obtain cells where c: "Data row = Some cells" by auto
  from Cons show ?case by (simp add: fill_data_zip_row [OF c] c)
qed

lemma process_rows_skips_header:
  "process_rows column_info (header # raw_rows) False rows = process_rows column_info raw_rows True rows"
  by simp

lemma process_rows_zip:
  assumes "\<forall>row\<in>set (drop 1 raw_rows). Data row \<noteq> None"
  shows "process_rows column_info raw_rows False [] =
           Inr (map (\<lambda>row. zip_row column_info (the (Data row))) (drop 1 raw_rows))"
proof (cases raw_rows)
  case Nil
  then show ?thesis by simp
next
  case (Cons header rest)
  with assms show ?thesis by (simp add: process_rows_after_header)
qed

lemma fold_update_keys:
  "fst ` set (fold (\<lambda>(col_info, cell). AList.update (column_name col_info) (cell_text cell)) ps data)
     = fst ` set data \<union> (column_name \<circ> fst) ` set ps"
proof (induction ps arbitrary: data)
  case Nil
  then show ?case by simp
next
  case (Cons p ps)
  obtain c x where p: "p = (c, x)" by (cases p)
  have "fst ` set (AList.update (column_name c) (cell_text x) data)
          = {column_name c} \<union> fst ` set data"
    by (rule dom_update)
  with Cons.IH [of "AList.update (column_name c) (cell_text x) data"] show ?case
    by (simp add: p)
qed

lemma zip_row_keys:
  "fst ` set (zip_row column_info cells) = column_name ` set (take (length cells) column_info)"
proof -
  have "map fst (zip column_info cells) = take (length cells) column_info"
    by (simp add: map_fst_zip_take min_def)
  then have "fst ` set (zip column_info cells) = set (take (length cells) column_info)"
    by (metis set_map)
  moreover have "(column_name \<circ> fst) ` set (zip column_info cells)
                   = column_name ` (fst ` set (zip column_info cells))"
    by (simp add: image_comp)
  ultimately show ?thesis
    by (simp add: zip_row_def fold_update_keys)
qed

lemma fold_update_other:
  "n \<notin> (column_name \<circ> fst) ` set ps \<Longrightarrow>
     map_of (fold (\<lambda>(col_info, cell). AList.update (column_name col_info) (cell_text cell)) ps data) n
       = map_of data n"
  by (induction ps arbitrary: data) (auto simp: update_conv')

lemma fold_update_lookup:
  assumes "i < length cs" "i < length cells"
    and "\<forall>j. i < j \<and> j < length cs \<and> j < length cells \<longrightarrow> column_name (cs ! j) \<noteq> column_name (cs ! i)"
  shows "map_of (fold (\<lambda>(col_info, cell). AList.update (column_name col_info) (cell_text cell))
                  (zip cs cells) data) (column_name (cs ! i)) = Some (cell_text (cells ! i))"
  using assms
proof (induction cs arbitrary: cells data i)
  case Nil
  then show ?case by simp
next
  case (Cons c cs)
  then obtain x xs where cells: "cells = x # xs" by (cases cells) auto
  show ?case
  proof (cases i)
    case 0
    have "column_name c \<notin> (column_name \<circ> fst) ` set (zip cs xs)"
    proof
      assume "column_name c \<in> (column_name \<circ> fst) ` set (zip cs xs)"
      then obtain p where p: "p \<in> set (zip cs xs)" "column_name (fst p) = column_name c" by auto
      then obtain j where j: "j < length cs" "j < length xs" "cs ! j = fst p"
        by (auto simp: set_zip)
      with Cons.prems(3) [rule_format, of "Suc j"] 0 cells p(2) show False by simp
    qed
    then show ?thesis using 0 cells by (simp add: fold_update_other update_conv')
  next
    case (Suc i')
    have "\<forall>j. i' < j \<and> j < length cs \<and> j < length xs \<longrightarrow> column_name (cs ! j) \<noteq> column_name (cs ! i')"
    proof (intro allI impI)
      fix j assume "i' < j \<and> j < length cs \<and> j < length xs"
      with Cons.prems(3) [rule_format, of "Suc j"] Suc cells
      show "column_name (cs ! j) \<noteq> column_name (cs ! i')" by simp
    qed
    with Cons.prems(1,2) Suc cells Cons.IH [of i' xs] show ?thesis by simp
  qed
qed

lemma zip_row_lookup:
  assumes "i < length column_info" "i < length cells"
    and "\<forall>j. i < j \<and> j < length column_info \<and> j < length cells \<longrightarrow>
             column_name (column_info ! j) \<noteq> column_name (column_info ! i)"
  shows "map_of (zip_row column_info cells) (column_name (column_info ! i)) = Some (cell_text (cells ! i))"
  unfolding zip_row_def using assms by (rule fold_update_lookup)

lemma fill_data_cases:
  "fill_data row (List.enumerate 0 column_info) [] =
     (if column_info \<noteq> [] \<and> Data row = None then Inl (KeyError ''Data'')
      else Inr (zip_row column_info (row_cells row)))"
proof (cases "Data row")
  case None
  then show ?thesis by (cases column_info) (simp_all add: zip_row_def row_cells_def)
next
  case (Some cells)
  then show ?thesis by (simp add: fill_data_zip_row row_cells_def)
qed

lemma process_rows_cases:
  "process_rows column_info raw_rows True rows =
     (if column_info \<noteq> [] \<and> (\<exists>row\<in>set raw_rows. Data row = None) then Inl (KeyError ''Data'')
      else Inr (rows @ map (\<lambda>row. zip_row column_info (row_cells row)) raw_rows))"
  by (induction raw_rows arbitrary: rows) (auto simp: fill_data_cases)

lemma process_rows_header_cases:
  "process_rows column_info raw_rows False [] =
     (if column_info \<noteq> [] \<and> (\<exists>row\<in>set (drop 1 raw_rows). Data row = None) then Inl (KeyError ''Data'')
      else Inr (map (\<lambda>row. zip_row column_info (row_cells row)) (drop 1 raw_rows)))"
  by (cases raw_rows) (simp_all add: process_rows_cases)

lemma update_new_key: "k \<notin> fst ` set al \<Longrightarrow> AList.update k v al = al @ [(k, v)]"
  by (induction al) auto

lemma status_result_Inr:
  assumes "status_result qid resp = Inr (st, meta)"
  shows "response_state resp = Inr st \<and>
         (\<exists>stats loc.
            meta = [(''QueryExecutionId'', VStr qid), (''Status'', VStr st),
                    (''StatisticsDetails'', VStatistics stats), (''OutputLocation'', VStr loc)]
                   @ (if st = str ''FAILED''
                      then (case StateChangeReason (the (Status (the (QueryExecution resp)))) of
                              None \<Rightarrow> [] | Some reason \<Rightarrow> [(''ErrorMessage'', VStr reason)])
                      else []))"
  using assms
  by (auto simp: status_result_def response_state_def Let_def split: option.splits if_splits)

text \<open>
  What fetching the results does, read off the log of a recording client: it ends in an
  error; or it checks the status, finds it is not \<open>SUCCEEDED\<close> and returns the status
  and the metadata; or it checks the status, requests the results and adds the columns,
  the rows and their number.
\<close>

lemma get_results_recorded:
  assumes run: "get_athena_query_results (recorded self) qid m (s, log) = (out, (s', log'))"
  obtains
    (failed) e new where "log' = log @ new" "out = error_dict e"
  | (other) resp st where
      "log' = log @ [Get_query_execution qid (Inr resp)]"
      "status_result qid resp = Inr (st, out)" "st \<noteq> str ''SUCCEEDED''"
  | (succeeded) resp meta rr rows where
      "log' = log @ [Get_query_execution qid (Inr resp), Get_query_results qid (Some m) (Inr rr)]"
      "status_result qid resp = Inr (str ''SUCCEEDED'', meta)"
      "process_result_rows (process_column_info rr) rr = Inr rows"
      "out = meta @ [(''ColumnInfo'', VColumns (process_column_info rr)), (''Rows'', VRows rows),
                     (''RowCount'', VInt (int (length rows)))]"
proof (cases "session_client self")
  case (Inl e)
  with run have "out = error_dict e" "log' = log @ []"
    by (simp_all add: get_athena_query_results_def recorded_def)
  then show thesis using failed by blast
next
  case (Inr c)
  define a where "a = fst (get_query_execution c qid s)"
  define s1 where "s1 = snd (get_query_execution c qid s)"
  define log1 where "log1 = log @ [Get_query_execution qid a]"
  have g: "get_query_execution (recording c) qid (s, log) = (a, (s1, log1))"
    unfolding a_def s1_def log1_def by (rule get_query_execution_recording)
  note defs = get_athena_query_results_def recorded_def
  show thesis
  proof (cases a)
    case e: (Inl e)
    with run Inr g have "out = error_dict e" "log' = log @ [Get_query_execution qid a]"
      by (simp_all add: defs log1_def)
    then show thesis using failed by blast
  next
    case resp: (Inr resp)
    show thesis
    proof (cases "status_result qid resp")
      case e: (Inl e)
      with run Inr g resp have "out = error_dict e" "log' = log @ [Get_query_execution qid a]"
        by (simp_all add: defs log1_def)
      then show thesis using failed by blast
    next
      case sm: (Inr sm)
      obtain st meta where sm': "sm = (st, meta)" by (cases sm)
      show thesis
      proof (cases "st = str ''SUCCEEDED''")
        case False
        with run Inr g resp sm sm' have "out = meta" "log' = log1"
          by (simp_all add: defs)
        with False sm sm' show thesis
          by (intro other [of resp st]) (simp_all add: log1_def resp)
      next
        case True
        define b where "b = fst (get_query_results c qid (Some m) s1)"
        define s2 where "s2 = snd (get_query_results c qid (Some m) s1)"
        define log2 where "log2 = log1 @ [Get_query_results qid (Some m) b]"
        have gr: "get_query_results (recording c) qid (Some m) (s1, log1) = (b, (s2, log2))"
          unfolding b_def s2_def log2_def by (rule get_query_results_recording)
        from status_result_Inr [OF sm [unfolded sm']] True
        obtain stats loc where meta:
          "meta = [(''QueryExecutionId'', VStr qid), (''Status'', VStr st),
                    (''StatisticsDetails'', VStatistics stats), (''OutputLocation'', VStr loc)]"
          by (auto simp: str_eq_iff)
        show thesis
        proof (cases b)
          case e: (Inl e)
          with run Inr g resp sm sm' True gr have "out = error_dict e" "log' = log @ [Get_query_execution qid a, Get_query_results qid (Some m) b]"
            by (simp_all add: defs log2_def log1_def)
          then show thesis using failed by blast
        next
          case rr: (Inr rr)
          show thesis
          proof (cases "process_result_rows (process_column_info rr) rr")
            case e: (Inl e)
            with run Inr g resp sm sm' True gr rr
            have "out = error_dict e" "log' = log @ [Get_query_execution qid a, Get_query_results qid (Some m) b]"
              by (simp_all add: defs log2_def log1_def)
            then show thesis using failed by blast
          next
            case rows: (Inr rows)
            with run Inr g resp sm sm' True gr rr
            have "out = meta @ [(''ColumnInfo'', VColumns (process_column_info rr)), (''Rows'', VRows rows),
                     (''RowCount'', VInt (int (length rows)))]" "log' = log2"
              by (simp_all add: defs meta)
            with sm sm' True rows show thesis
              by (intro succeeded [of resp rr meta rows]) (simp_all add: log2_def log1_def resp rr)
          qed
        qed
      qed
    qed
  qed
qed

lemma status_checks_single:
  "status_checks [Get_query_execution qid (Inr resp)] = [response_state resp]"
  "status_checks [Get_query_execution qid (Inr resp), Get_query_results qid' x b] = [response_state resp]"
  by simp_all

text \<open>
  C7, as the code has it. When fetching the results ends in an error (the client cannot
  be made, a call of the engine raises, the status answer misses a key, a row has no
  \<open>Data\<close>), the result is the \<open>error\<close> entry alone. Otherwise the result holds the status
  the engine reported, and it holds \<open>ColumnInfo\<close>, \<open>Rows\<close> and \<open>RowCount\<close>, all three,
  exactly when that status is \<open>SUCCEEDED\<close>; for any other status it holds the execution
  id, the status, the statistics and the output location only (and \<open>ErrorMessage\<close> for a
  failed query with a reason), and the results are not requested.
\<close>

theorem fetch_results_fields:
  assumes "get_athena_query_results (recorded self) qid m (s, log) = (out, (s', log @ new))"
  shows "(''error'' \<in> set (map fst out) \<longrightarrow> map fst out = [''error'']) \<and>
         (''error'' \<notin> set (map fst out) \<longrightarrow>
            (\<exists>status.
               status_checks new = [Inr status] \<and>
               map_of out ''Status'' = Some (VStr status) \<and>
               (status = str ''SUCCEEDED'' \<longrightarrow>
                  map fst out = [''QueryExecutionId'', ''Status'', ''StatisticsDetails'',
                                 ''OutputLocation'', ''ColumnInfo'', ''Rows'', ''RowCount'']) \<and>
               (status \<noteq> str ''SUCCEEDED'' \<longrightarrow>
                  (map fst out = [''QueryExecutionId'', ''Status'', ''StatisticsDetails'',
                                  ''OutputLocation''] \<or>
                   status = str ''FAILED'' \<and>
                   map fst out = [''QueryExecutionId'', ''Status'', ''StatisticsDetails'',
                                  ''OutputLocation'', ''ErrorMessage'']) \<and>
                  list_all (\<lambda>ev. case ev of Get_query_results q x a \<Rightarrow> False | _ \<Rightarrow> True) new)))"
  using assms
proof (cases rule: get_results_recorded)
  case (failed e new')
  then show ?thesis by (simp add: error_dict_def)
next
  case (other resp st)
  then have new: "new = [Get_query_execution qid (Inr resp)]" by simp
  from status_result_Inr [OF other(2)] obtain stats loc where
    rs: "response_state resp = Inr st" and
    out: "out = [(''QueryExecutionId'', VStr qid), (''Status'', VStr st),
                 (''StatisticsDetails'', VStatistics stats), (''OutputLocation'', VStr loc)]
                @ (if st = str ''FAILED''
                   then (case StateChangeReason (the (Status (the (QueryExecution resp)))) of
                           None \<Rightarrow> [] | Some reason \<Rightarrow> [(''ErrorMessage'', VStr reason)])
                   else [])"
    by blast
  have keys: "map fst out = [''QueryExecutionId'', ''Status'', ''StatisticsDetails'', ''OutputLocation''] \<or>
              st = str ''FAILED'' \<and>
              map fst out = [''QueryExecutionId'', ''Status'', ''StatisticsDetails'',
                             ''OutputLocation'', ''ErrorMessage'']"
    by (simp add: out split: option.splits)
  have st: "map_of out ''Status'' = Some (VStr st)" by (simp add: out)
  have ne: "''error'' \<notin> set (map fst out)" using keys by auto
  show ?thesis
    using keys st ne other(3) by (intro conjI impI exI [of _ st]) (simp_all add: new rs)
next
  case (succeeded resp meta rr rows)
  then have new: "new = [Get_query_execution qid (Inr resp), Get_query_results qid (Some m) (Inr rr)]"
    by simp
  from status_result_Inr [OF succeeded(2)] obtain stats loc where
    rs: "response_state resp = Inr (str ''SUCCEEDED'')" and
    meta: "meta = [(''QueryExecutionId'', VStr qid), (''Status'', VStr (str ''SUCCEEDED'')),
                 (''StatisticsDetails'', VStatistics stats), (''OutputLocation'', VStr loc)]"
    by (auto simp: str_eq_iff)
  show ?thesis
    by (intro conjI impI exI [of _ "str ''SUCCEEDED''"]) (simp_all add: new rs succeeded(4) meta)
qed

theorem fetch_results_fields_witness:
  "status_checks (snd (snd (sample_fetch (Inr sample_results) [Inr (execution_in ''RUNNING'' None)])))
     = [Inr (str ''RUNNING'')] \<and>
   map fst (fst (sample_fetch (Inr sample_results) [Inr (execution_in ''RUNNING'' None)]))
     = [''QueryExecutionId'', ''Status'', ''StatisticsDetails'', ''OutputLocation''] \<and>
   map_of (fst (sample_fetch (Inr sample_results) [Inr (execution_in ''RUNNING'' None)])) ''Status''
     = Some (VStr (str ''RUNNING'')) \<and>
   map fst (fst (sample_fetch (Inr \<lparr>ResultSet = None\<rparr>) [Inr (execution_in ''SUCCEEDED'' None)]))
     = [''QueryExecutionId'', ''Status'', ''StatisticsDetails'', ''OutputLocation'',
        ''ColumnInfo'', ''Rows'', ''RowCount''] \<and>
   map_of (fst (sample_fetch (Inr \<lparr>ResultSet = None\<rparr>) [Inr (execution_in ''SUCCEEDED'' None)])) ''RowCount''
     = Some (VInt 0)"
proof -
  let ?run = "sample_fetch (Inr sample_results) [Inr (execution_in ''RUNNING'' None)]"
  let ?zero = "sample_fetch (Inr \<lparr>ResultSet = None\<rparr>) [Inr (execution_in ''SUCCEEDED'' None)]"
  have e: "get_athena_query_results (recorded (scripted_querier (Inr sample_results))) (str ''q-1'') 1000
             ([Inr (execution_in ''RUNNING'' None)], [])
           = (fst ?run, (fst (snd ?run), [] @ snd (snd ?run)))"
    by (simp add: sample_fetch_def)
  have e0: "get_athena_query_results (recorded (scripted_querier (Inr \<lparr>ResultSet = None\<rparr>))) (str ''q-1'') 1000
             ([Inr (execution_in ''SUCCEEDED'' None)], [])
           = (fst ?zero, (fst (snd ?zero), [] @ snd (snd ?zero)))"
    by (simp add: sample_fetch_def)
  have sc: "status_checks (snd (snd ?run)) = [Inr (str ''RUNNING'')]" by code_simp
  have sc0: "status_checks (snd (snd ?zero)) = [Inr (str ''SUCCEEDED'')]" by code_simp
  have ne: "''error'' \<notin> set (map fst (fst ?run))" by code_simp
  have ne0: "''error'' \<notin> set (map fst (fst ?zero))" by code_simp
  have rc0: "map_of (fst ?zero) ''RowCount'' = Some (VInt 0)" by code_simp
  have d: "str ''RUNNING'' \<noteq> str ''SUCCEEDED''" "str ''RUNNING'' \<noteq> str ''FAILED''"
    by (simp_all add: str_eq_iff)
  from fetch_results_fields [OF e] ne sc d
  have "map fst (fst ?run) = [''QueryExecutionId'', ''Status'', ''StatisticsDetails'', ''OutputLocation'']"
    and "map_of (fst ?run) ''Status'' = Some (VStr (str ''RUNNING''))"
    by auto
  moreover from fetch_results_fields [OF e0] ne0 sc0
  have "map fst (fst ?zero) = [''QueryExecutionId'', ''Status'', ''StatisticsDetails'', ''OutputLocation'',
        ''ColumnInfo'', ''Rows'', ''RowCount'']"
    by auto
  ultimately show ?thesis using sc rc0 by simp
qed

text \<open>
  C7, as the specification has it, fails: the status is \<open>SUCCEEDED\<close>, the request for
  the results raises, and the result is the error, without \<open>ColumnInfo\<close>, \<open>Rows\<close> and
  \<open>RowCount\<close>.
\<close>

theorem fetch_error_counterexample:
  "status_checks (snd (snd (sample_fetch (Inl (ClientError (str ''ThrottlingException'')))
                              [Inr (execution_in ''SUCCEEDED'' None)])))
     = [Inr (str ''SUCCEEDED'')] \<and>
   fst (sample_fetch (Inl (ClientError (str ''ThrottlingException'')))
          [Inr (execution_in ''SUCCEEDED'' None)])
     = [(''error'', VStr (str ''ThrottlingException''))]"
proof -
  have "status_checks (snd (snd (sample_fetch (Inl (ClientError (str ''ThrottlingException'')))
                              [Inr (execution_in ''SUCCEEDED'' None)])))
     = [Inr (str ''SUCCEEDED'')]"
    by code_simp
  moreover have "fst (sample_fetch (Inl (ClientError (str ''ThrottlingException'')))
          [Inr (execution_in ''SUCCEEDED'' None)])
     = [(''error'', VStr (str ''ThrottlingException''))]"
    by code_simp
  ultimately show ?thesis by simp
qed

text \<open>
  C8. The loop over the rows drops the first row whatever it holds, never raises
  \<open>IndexError\<close>, and turns every later row into the names of the columns zipped with the
  texts of its cells; a row with fewer cells than columns gives entries for the first
  columns only. (A row without \<open>Data\<close>, which the engine does not deliver, makes the loop
  raise \<open>KeyError\<close> when there is a column.) In the result of fetching, \<open>Rows\<close> are the
  rows so built from the response of the engine and \<open>RowCount\<close> is their number.
\<close>

theorem result_rows_normalized:
  "process_rows column_info (header # raw_rows) False [] = process_rows column_info raw_rows True [] \<and>
   process_rows column_info raw_rows header_processed rows \<noteq> Inl IndexError \<and>
   process_rows column_info raw_rows False [] =
     (if column_info \<noteq> [] \<and> (\<exists>row\<in>set (drop 1 raw_rows). Data row = None)
      then Inl (KeyError ''Data'')
      else Inr (map (\<lambda>row. zip_row column_info (row_cells row)) (drop 1 raw_rows))) \<and>
   fst ` set (zip_row column_info cells) = column_name ` set (take (length cells) column_info) \<and>
   (get_athena_query_results (recorded self) qid m (s, log) = (out, (s', log @ new)) \<and>
    ''Rows'' \<in> set (map fst out) \<longrightarrow>
      (\<exists>results_response result_rows.
         last new = Get_query_results qid (Some m) (Inr results_response) \<and>
         process_result_rows (process_column_info results_response) results_response = Inr result_rows \<and>
         map_of out ''ColumnInfo'' = Some (VColumns (process_column_info results_response)) \<and>
         map_of out ''Rows'' = Some (VRows result_rows) \<and>
         map_of out ''RowCount'' = Some (VInt (int (length result_rows)))))"
proof -
  have "get_athena_query_results (recorded self) qid m (s, log) = (out, (s', log @ new)) \<and>
    ''Rows'' \<in> set (map fst out) \<longrightarrow>
      (\<exists>results_response result_rows.
         last new = Get_query_results qid (Some m) (Inr results_response) \<and>
         process_result_rows (process_column_info results_response) results_response = Inr result_rows \<and>
         map_of out ''ColumnInfo'' = Some (VColumns (process_column_info results_response)) \<and>
         map_of out ''Rows'' = Some (VRows result_rows) \<and>
         map_of out ''RowCount'' = Some (VInt (int (length result_rows))))"
  proof (intro impI, elim conjE)
    assume run: "get_athena_query_results (recorded self) qid m (s, log) = (out, (s', log @ new))"
      and k: "''Rows'' \<in> set (map fst out)"
    from run show "\<exists>results_response result_rows.
         last new = Get_query_results qid (Some m) (Inr results_response) \<and>
         process_result_rows (process_column_info results_response) results_response = Inr result_rows \<and>
         map_of out ''ColumnInfo'' = Some (VColumns (process_column_info results_response)) \<and>
         map_of out ''Rows'' = Some (VRows result_rows) \<and>
         map_of out ''RowCount'' = Some (VInt (int (length result_rows)))"
    proof (cases rule: get_results_recorded)
      case (failed e new')
      with k show ?thesis by (simp add: error_dict_def)
    next
      case (other resp st)
      from status_result_Inr [OF other(2)] k show ?thesis
        by (auto split: if_splits option.splits)
    next
      case (succeeded resp meta rr rows)
      then have new: "new = [Get_query_execution qid (Inr resp), Get_query_results qid (Some m) (Inr rr)]"
        by simp
      from status_result_Inr [OF succeeded(2)] obtain stats loc where
        meta: "meta = [(''QueryExecutionId'', VStr qid), (''Status'', VStr (str ''SUCCEEDED'')),
                 (''StatisticsDetails'', VStatistics stats), (''OutputLocation'', VStr loc)]"
        by (auto simp: str_eq_iff)
      show ?thesis
        by (intro exI [of _ rr] exI [of _ rows]) (simp add: new succeeded(3,4) meta)
    qed
  qed
  then show ?thesis
    by (simp add: process_rows_no_IndexError process_rows_header_cases zip_row_keys
          del: process_rows.simps map_of.simps)
      (simp add: process_rows_cases)
qed

theorem result_rows_normalized_witness:
  "process_rows (process_column_info sample_results) sample_rows False []
     = Inr [[(str ''id'', str ''1''), (str ''name'', [])], [(str ''id'', str ''2'')]] \<and>
   map_of (fst (sample_fetch (Inr sample_results) [Inr (execution_in ''SUCCEEDED'' None)])) ''RowCount''
     = Some (VInt 2)"
proof -
  let ?cols = "process_column_info sample_results"
  let ?run = "sample_fetch (Inr sample_results) [Inr (execution_in ''SUCCEEDED'' None)]"
  have e: "get_athena_query_results (recorded (scripted_querier (Inr sample_results))) (str ''q-1'') 1000
             ([Inr (execution_in ''SUCCEEDED'' None)], [])
           = (fst ?run, (fst (snd ?run), [] @ snd (snd ?run)))"
    by (simp add: sample_fetch_def)
  have k: "''Rows'' \<in> set (map fst (fst ?run))" by code_simp
  have l: "last (snd (snd ?run)) = Get_query_results (str ''q-1'') (Some 1000) (Inr sample_results)"
    by code_simp
  have d: "\<not> (?cols \<noteq> [] \<and> (\<exists>row\<in>set (drop 1 sample_rows). Data row = None))"
    by (simp add: sample_rows_def)
  have z: "map (\<lambda>row. zip_row ?cols (row_cells row)) (drop 1 sample_rows)
             = [[(str ''id'', str ''1''), (str ''name'', [])], [(str ''id'', str ''2'')]]"
    by code_simp
  note t = result_rows_normalized [where column_info = ?cols and raw_rows = sample_rows
      and self = "scripted_querier (Inr sample_results)" and qid = "str ''q-1''" and m = 1000
      and s = "[Inr (execution_in ''SUCCEEDED'' None)]" and log = "[]" and out = "fst ?run"
      and s' = "fst (snd ?run)" and new = "snd (snd ?run)"]
  from t [THEN conjunct2, THEN conjunct2, THEN conjunct1] d z
  have r: "process_rows ?cols sample_rows False []
     = Inr [[(str ''id'', str ''1''), (str ''name'', [])], [(str ''id'', str ''2'')]]"
    by simp
  from t [THEN conjunct2, THEN conjunct2, THEN conjunct2, THEN conjunct2, rule_format, OF conjI, OF e k]
  obtain rr result_rows where rr:
    "last (snd (snd ?run)) = Get_query_results (str ''q-1'') (Some 1000) (Inr rr)"
    "process_result_rows (process_column_info rr) rr = Inr result_rows"
    "map_of (fst ?run) ''RowCount'' = Some (VInt (int (length result_rows)))"
    by blast
  from rr(1) l have "rr = sample_results" by simp
  with rr(2) r have "result_rows = [[(str ''id'', str ''1''), (str ''name'', [])], [(str ''id'', str ''2'')]]"
    by (simp add: process_result_rows_def sample_results_def)
  with rr(3) r show ?thesis by simp
qed

text \<open>
  C10, as the code has it. A cell that is present and has no \<open>VarCharValue\<close> does not
  make the row fail, and the name of its column is a key of the row: the keys are the
  names of the columns that have a cell. The value under that name is the empty string
  when no later cell of the row belongs to a column of the same name.
\<close>

theorem null_cell_mapped_to_empty_string:
  assumes "Data row = Some cells" and "i < length column_info" and "i < length cells"
    and "VarCharValue (cells ! i) = None"
  shows "\<exists>data.
           fill_data row (List.enumerate 0 column_info) [] = Inr data \<and>
           column_name (column_info ! i) \<in> fst ` set data \<and>
           fst ` set data = column_name ` set (take (length cells) column_info) \<and>
           ((\<forall>j. i < j \<and> j < length column_info \<and> j < length cells \<longrightarrow>
                  column_name (column_info ! j) \<noteq> column_name (column_info ! i)) \<longrightarrow>
              map_of data (column_name (column_info ! i)) = Some [])"
proof -
  have "column_info ! i \<in> set (take (length cells) column_info)"
    using assms(2,3) by (metis in_set_conv_nth length_take min_less_iff_conj nth_take)
  then have "column_name (column_info ! i) \<in> fst ` set (zip_row column_info cells)"
    by (simp add: zip_row_keys)
  moreover have "(\<forall>j. i < j \<and> j < length column_info \<and> j < length cells \<longrightarrow>
                  column_name (column_info ! j) \<noteq> column_name (column_info ! i)) \<longrightarrow>
              map_of (zip_row column_info cells) (column_name (column_info ! i)) = Some []"
    using zip_row_lookup [OF assms(2,3)] assms(4) by (simp add: cell_text_def)
  ultimately show ?thesis
    using fill_data_zip_row [OF assms(1)] zip_row_keys by (intro exI [of _ "zip_row column_info cells"]) simp
qed

theorem null_cell_mapped_to_empty_string_witness:
  "Data (sample_rows ! 1) = Some [\<lparr>VarCharValue = Some (str ''1'')\<rparr>, \<lparr>VarCharValue = None\<rparr>] \<and>
   column_name (process_column_info sample_results ! 1) = str ''name'' \<and>
   (\<exists>data. fill_data (sample_rows ! 1) (List.enumerate 0 (process_column_info sample_results)) []
              = Inr data \<and>
           map_of data (str ''name'') = Some [])"
proof -
  let ?cols = "process_column_info sample_results"
  let ?cells = "[\<lparr>VarCharValue = Some (str ''1'')\<rparr>, \<lparr>VarCharValue = None\<rparr>]"
  have h1: "Data (sample_rows ! 1) = Some ?cells" by (simp add: sample_rows_def)
  have c: "?cols = [\<lparr>column_name = str ''id'', column_type = str ''integer''\<rparr>,
                    \<lparr>column_name = str ''name'', column_type = str ''varchar''\<rparr>]"
    by (simp add: process_column_info_def sample_results_def sample_columns_def)
  have h2: "1 < length ?cols" by (simp add: c)
  have h3: "1 < length ?cells" by simp
  have h4: "VarCharValue (?cells ! 1) = None" by simp
  have n: "column_name (?cols ! 1) = str ''name''" by (simp add: c)
  have h5: "\<forall>j. 1 < j \<and> j < length ?cols \<and> j < length ?cells \<longrightarrow>
              column_name (?cols ! j) \<noteq> column_name (?cols ! 1)"
    by auto
  from null_cell_mapped_to_empty_string [OF h1 h2 h3 h4] h5 n h1 show ?thesis by auto
qed

text \<open>
  C10, as the specification has it, fails when two columns have the same name: the row
  is a dictionary keyed by the names, the later cell takes the place of the null, and
  the null is not mapped to the empty string.
\<close>

theorem twin_columns_counterexample:
  "VarCharValue (row_cells twin_row ! 0) = None \<and>
   column_name (twin_columns ! 0) = str ''id'' \<and>
   fill_data twin_row (List.enumerate 0 twin_columns) [] = Inr [(str ''id'', str ''7'')]"
  by (simp add: twin_row_def twin_columns_def row_cells_def enumerate_eq_zip list_getitem_def
        upt_rec str_eq_iff)

end
